theory Spec2Isabelle
  imports Main "HOL-Library.Word"
begin

unbundle bit_operations_syntax

section \<open>Function FSM (pkg/object/function/spec/fsm.go)\<close>

text \<open>
  \<open>State\<close> and \<open>Event\<close> are Go string types, so an FSM can be handed any string as an
  event; the named constants are the strings of the source (the destroyed state is
  spelled \<open>desctory\<close> there).
\<close>

type_synonym State = string
type_synonym Event = string

record transition =
  From :: State
  Event :: Event
  To :: State

record FSM =
  currentState :: State

definition FailedState :: State where "FailedState = ''failed''"
definition InitialState :: State where "InitialState = ''initial''"
definition ActiveState :: State where "ActiveState = ''active''"
definition InactiveState :: State where "InactiveState = ''inactive''"
definition DesctroyState :: State where "DesctroyState = ''desctory''"

definition CreateEvent :: Event where "CreateEvent = ''create''"
definition StartEvent :: Event where "StartEvent = ''start''"
definition StopEvent :: Event where "StopEvent = ''stop''"
definition UpdateEvent :: Event where "UpdateEvent = ''update''"
definition DeleteEvent :: Event where "DeleteEvent = ''delete''"
definition ReadyEvent :: Event where "ReadyEvent = ''ready''"
definition PendingEvent :: Event where "PendingEvent = ''pending''"
definition ErrorEvent :: Event where "ErrorEvent = ''error''"

text \<open>The key sets of the Go maps \<open>validState\<close> and \<open>validEvent\<close>.\<close>

definition validState :: "State \<Rightarrow> bool" where
  "validState s \<longleftrightarrow>
     s \<in> set [InitialState, ActiveState, InactiveState, FailedState, DesctroyState]"

definition validEvent :: "Event \<Rightarrow> bool" where
  "validEvent e \<longleftrightarrow>
     e \<in> set [UpdateEvent, DeleteEvent, StopEvent, StartEvent, CreateEvent,
              PendingEvent, ErrorEvent, ReadyEvent]"

definition mk_transition :: "State \<Rightarrow> Event \<Rightarrow> State \<Rightarrow> transition" where
  "mk_transition f e t = \<lparr>From = f, Event = e, To = t\<rparr>"

text \<open>The literal \<open>table\<close> of \<open>init()\<close>, in the order of the source.\<close>

definition table :: "transition list" where
  "table =
    [mk_transition InitialState UpdateEvent InitialState,
     mk_transition InitialState DeleteEvent DesctroyState,
     mk_transition InitialState ReadyEvent ActiveState,
     mk_transition InitialState PendingEvent InitialState,
     mk_transition InitialState ErrorEvent FailedState,

     mk_transition ActiveState StopEvent InactiveState,
     mk_transition ActiveState ErrorEvent FailedState,
     mk_transition ActiveState ReadyEvent ActiveState,
     mk_transition ActiveState PendingEvent FailedState,

     mk_transition InactiveState UpdateEvent InitialState,
     mk_transition InactiveState StartEvent InactiveState,
     mk_transition InactiveState DeleteEvent DesctroyState,
     mk_transition InactiveState ReadyEvent ActiveState,
     mk_transition InactiveState PendingEvent FailedState,
     mk_transition InactiveState ErrorEvent FailedState,

     mk_transition FailedState DeleteEvent DesctroyState,
     mk_transition FailedState UpdateEvent InitialState,
     mk_transition FailedState ReadyEvent InitialState,
     mk_transition FailedState ErrorEvent FailedState,
     mk_transition FailedState PendingEvent FailedState]"

text \<open>
  \<open>init()\<close> groups the table by event:
  \<open>transitions[t.Event] = append(transitions[t.Event], t)\<close>; a missing key reads as the
  nil slice.
\<close>

definition add_transition ::
  "transition \<Rightarrow> (Event \<rightharpoonup> transition list) \<Rightarrow> (Event \<rightharpoonup> transition list)" where
  "add_transition t m =
     m(Event t \<mapsto> (case m (Event t) of None \<Rightarrow> [] | Some l \<Rightarrow> l) @ [t])"

definition transitions :: "Event \<rightharpoonup> transition list" where
  "transitions = fold add_transition table Map.empty"

definition InitState :: State where
  "InitState = InitialState"

definition InitFSM :: "State \<Rightarrow> string + FSM" where
  "InitFSM state =
     (if \<not> validState state then Inl (''invalid state: '' @ state)
      else Inr \<lparr>currentState = state\<rparr>)"

text \<open>
  The loop of \<open>Next\<close> over the transitions of one event: the first entry whose
  \<open>From\<close> is the current state decides.
\<close>

fun scan_transitions :: "FSM \<Rightarrow> transition list \<Rightarrow> FSM option" where
  "scan_transitions fsm [] = None"
| "scan_transitions fsm (v # t) =
     (if currentState fsm = From v then Some (fsm\<lparr>currentState := To v\<rparr>)
      else scan_transitions fsm t)"

text \<open>\<open>Next\<close> returns the FSM after the call and the error (\<open>None\<close> is Go's nil).\<close>

definition Next :: "FSM \<Rightarrow> Event \<Rightarrow> FSM \<times> string option" where
  "Next fsm event =
     (if \<not> validEvent event then (fsm, Some (''unknown event: '' @ event))
      else
        let invalid = (fsm, Some (''invalid event: '' @ event @ '', currentState: ''
                                   @ currentState fsm))
        in case transitions event of
             None \<Rightarrow> invalid
           | Some t \<Rightarrow>
               (case scan_transitions fsm t of
                  Some fsm' \<Rightarrow> (fsm', None)
                | None \<Rightarrow> invalid))"

definition Current :: "FSM \<Rightarrow> State" where
  "Current fsm = currentState fsm"

text \<open>
  The transition table as section 4.7 of the specification prints it (rows
  \<open>pending/error\<close> expanded), written from the specification and compared with the
  code below. The specification's \<open>destroyed\<close> is the source's \<open>DesctroyState\<close>.
\<close>

definition table_4_7 :: "(State \<times> Event \<times> State) list" where
  "table_4_7 =
    [(''initial'', ''update'', ''initial''),
     (''initial'', ''delete'', DesctroyState),
     (''initial'', ''ready'', ''active''),
     (''initial'', ''pending'', ''initial''),
     (''initial'', ''error'', ''failed''),
     (''active'', ''stop'', ''inactive''),
     (''active'', ''error'', ''failed''),
     (''active'', ''ready'', ''active''),
     (''active'', ''pending'', ''failed''),
     (''inactive'', ''update'', ''initial''),
     (''inactive'', ''start'', ''inactive''),
     (''inactive'', ''delete'', DesctroyState),
     (''inactive'', ''ready'', ''active''),
     (''inactive'', ''pending'', ''failed''),
     (''inactive'', ''error'', ''failed''),
     (''failed'', ''delete'', DesctroyState),
     (''failed'', ''update'', ''initial''),
     (''failed'', ''ready'', ''initial''),
     (''failed'', ''pending'', ''failed''),
     (''failed'', ''error'', ''failed'')]"

text \<open>A table entry read as a row (from, event, to).\<close>

definition triple :: "transition \<Rightarrow> State \<times> Event \<times> State" where
  "triple v = (From v, Event v, To v)"


section \<open>MQTT session (package mqttproxy, session file)\<close>

type_synonym byte = "8 word"
type_synonym uint16 = "16 word"

text \<open>
  \<open>encoding/base64\<close> is Go's standard library, not code of the repository; it is
  written out after its documentation. \<open>EncodeToString\<close> and \<open>DecodeString\<close> are those
  of \<open>base64.StdEncoding\<close>, the padded standard alphabet of RFC 4648; decoding skips CR
  and LF and fails (\<open>None\<close>) on any other byte outside the alphabet and on a broken final
  quantum.
\<close>

definition b64_alphabet :: string where
  "b64_alphabet = ''ABCDEFGHIJKLMNOPQRSTUVWXYZabcdefghijklmnopqrstuvwxyz0123456789+/''"

definition b64_char :: "nat \<Rightarrow> char" where
  "b64_char n = b64_alphabet ! (n mod 64)"

fun index_of :: "char \<Rightarrow> string \<Rightarrow> nat option" where
  "index_of c [] = None"
| "index_of c (x # xs) = (if c = x then Some 0 else map_option Suc (index_of c xs))"

definition b64_index :: "char \<Rightarrow> nat option" where
  "b64_index c = index_of c b64_alphabet"

fun EncodeToString :: "byte list \<Rightarrow> string" where
  "EncodeToString [] = []"
| "EncodeToString [a] =
     [b64_char (unat a div 4), b64_char (unat a mod 4 * 16), CHR ''='', CHR ''='']"
| "EncodeToString [a, b] =
     [b64_char (unat a div 4), b64_char (unat a mod 4 * 16 + unat b div 16),
      b64_char (unat b mod 16 * 4), CHR ''='']"
| "EncodeToString (a # b # c # rest) =
     [b64_char (unat a div 4), b64_char (unat a mod 4 * 16 + unat b div 16),
      b64_char (unat b mod 16 * 4 + unat c div 64), b64_char (unat c mod 64)]
     @ EncodeToString rest"

fun decode_quanta :: "string \<Rightarrow> byte list option" where
  "decode_quanta [] = Some []"
| "decode_quanta [a, b, c, d] =
     (case (b64_index a, b64_index b) of
        (Some x, Some y) \<Rightarrow>
          (if c = CHR ''='' \<and> d = CHR ''='' then Some [of_nat (x * 4 + y div 16)]
           else case b64_index c of
                  None \<Rightarrow> None
                | Some z \<Rightarrow>
                    (if d = CHR ''=''
                     then Some [of_nat (x * 4 + y div 16), of_nat (y mod 16 * 16 + z div 4)]
                     else case b64_index d of
                            None \<Rightarrow> None
                          | Some w \<Rightarrow>
                              Some [of_nat (x * 4 + y div 16), of_nat (y mod 16 * 16 + z div 4),
                                    of_nat (z mod 4 * 64 + w)]))
      | _ \<Rightarrow> None)"
| "decode_quanta (a # b # c # d # rest) =
     (case (b64_index a, b64_index b, b64_index c, b64_index d) of
        (Some x, Some y, Some z, Some w) \<Rightarrow>
          map_option
            (\<lambda>bs. [of_nat (x * 4 + y div 16), of_nat (y mod 16 * 16 + z div 4),
                    of_nat (z mod 4 * 64 + w)] @ bs)
            (decode_quanta rest)
      | _ \<Rightarrow> None)"
| "decode_quanta _ = None"

definition DecodeString :: "string \<Rightarrow> byte list option" where
  "DecodeString s = decode_quanta (filter (\<lambda>c. c \<noteq> CHR 0x0D \<and> c \<noteq> CHR 0x0A) s)"

text \<open>
  \<open>SessionInfo\<close>, \<open>Message\<close> and \<open>Session\<close> as the source declares them. \<open>Topics\<close> maps a
  subscribed topic to its qos as a Go \<open>int\<close>. The broker pointer, the store channel, the
  \<open>done\<close> channel and the mutex are not state of the model: what the session sends out
  is returned as a list of effects, and whether \<open>broker.getClient\<close> finds the client is
  an argument of each operation.
\<close>

record SessionInfo =
  EGName :: string
  Topics :: "string \<rightharpoonup> int"
  ClientID :: string
  CleanFlag :: bool

record Message =
  Topic :: string
  B64Payload :: string
  Qos :: int

record Session =
  info :: SessionInfo
  pending :: "uint16 \<rightharpoonup> Message"
  pendingQueue :: "uint16 list"
  nextID :: uint16

text \<open>The fields of paho's \<open>PublishPacket\<close> that the session sets.\<close>

record PublishPacket =
  pkt_Qos :: byte
  TopicName :: string
  Payload :: "byte list"
  MessageID :: uint16

datatype effect =
  WritePacket PublishPacket    \<comment> \<open>\<open>go client.writePacket(p)\<close>\<close>
| LogError string              \<comment> \<open>\<open>logger.Errorf\<close>\<close>
| Printf string                \<comment> \<open>\<open>fmt.Printf\<close>\<close>
| StoreSession SessionInfo     \<comment> \<open>\<open>s.store()\<close>: the encoded info goes to the store channel\<close>

text \<open>
  Modelled from the spec: the constants \<open>Qos0\<close>, \<open>Qos1\<close> and \<open>Qos2\<close> are declared in a
  file of the package that is not among the sources; they are the MQTT quality-of-service
  levels 0, 1 and 2 of section 4.8.
\<close>

definition Qos0 :: byte where "Qos0 = 0"
definition Qos1 :: byte where "Qos1 = 1"
definition Qos2 :: byte where "Qos2 = 2"

definition getMsg :: "string \<Rightarrow> byte list \<Rightarrow> byte \<Rightarrow> Message" where
  "getMsg topic payload qos =
     \<lparr>Topic = topic, B64Payload = EncodeToString payload, Qos = uint qos\<rparr>"

text \<open>\<open>init\<close>: empty pending map and queue; \<open>nextID\<close> keeps Go's zero value.\<close>

definition session_init :: "string \<Rightarrow> string \<Rightarrow> bool \<Rightarrow> Session" where
  "session_init brokerName clientIdentifier cleanSession =
     \<lparr>info = \<lparr>EGName = brokerName, Topics = Map.empty, ClientID = clientIdentifier,
              CleanFlag = cleanSession\<rparr>,
      pending = Map.empty, pendingQueue = [], nextID = 0\<rparr>"

text \<open>
  \<open>subscribe\<close> stores \<open>int(qoss[i])\<close> under the i-th topic; \<open>qoss[i]\<close> panics (\<open>None\<close>)
  when there are fewer qos bytes than topics.
\<close>

fun subscribe_loop ::
  "(string \<rightharpoonup> int) \<Rightarrow> string list \<Rightarrow> byte list \<Rightarrow> (string \<rightharpoonup> int) option" where
  "subscribe_loop tp [] qoss = Some tp"
| "subscribe_loop tp (t # ts) [] = None"
| "subscribe_loop tp (t # ts) (q # qoss) = subscribe_loop (tp(t \<mapsto> uint q)) ts qoss"

definition subscribe ::
  "Session \<Rightarrow> string list \<Rightarrow> byte list \<Rightarrow> (Session \<times> effect list) option" where
  "subscribe s topics qoss =
     (case subscribe_loop (Topics (info s)) topics qoss of
        None \<Rightarrow> None
      | Some tp \<Rightarrow>
          (let s' = s\<lparr>info := (info s)\<lparr>Topics := tp\<rparr>\<rparr>
           in Some (s', [StoreSession (info s')])))"

text \<open>\<open>unsubscribe\<close> deletes each topic in turn.\<close>

fun unsubscribe_loop :: "(string \<rightharpoonup> int) \<Rightarrow> string list \<Rightarrow> (string \<rightharpoonup> int)" where
  "unsubscribe_loop tp [] = tp"
| "unsubscribe_loop tp (t # ts) = unsubscribe_loop (tp(t := None)) ts"

definition unsubscribe :: "Session \<Rightarrow> string list \<Rightarrow> Session \<times> effect list" where
  "unsubscribe s topics =
     (let s' = s\<lparr>info := (info s)\<lparr>Topics := unsubscribe_loop (Topics (info s)) topics\<rparr>\<rparr>
      in (s', [StoreSession (info s')]))"

text \<open>\<open>getPacketFromMsg\<close> takes the next id; \<open>s.nextID++\<close> wraps at 65535.\<close>

definition getPacketFromMsg ::
  "Session \<Rightarrow> string \<Rightarrow> byte list \<Rightarrow> byte \<Rightarrow> PublishPacket \<times> Session" where
  "getPacketFromMsg s topic payload qos =
     (\<lparr>pkt_Qos = qos, TopicName = topic, Payload = payload, MessageID = nextID s\<rparr>,
      s\<lparr>nextID := nextID s + 1\<rparr>)"

text \<open>
  \<open>publish\<close>. The guard is \<open>!ok || byte(q) < qos\<close>, with \<open>byte(q)\<close> the low eight bits
  of the stored int; \<open>client\<close> tells whether \<open>broker.getClient\<close> returned a client.
\<close>

definition publish ::
  "bool \<Rightarrow> Session \<Rightarrow> string \<Rightarrow> byte list \<Rightarrow> byte \<Rightarrow> Session \<times> effect list" where
  "publish client s topic payload qos =
     (case Topics (info s) topic of
        None \<Rightarrow> (s, [])
      | Some q \<Rightarrow>
          if (word_of_int q :: byte) < qos then (s, [])
          else if \<not> client
          then (s, [LogError (''client '' @ ClientID (info s) @ '' is offline'')])
          else
            (let (p, s1) = getPacketFromMsg s topic payload qos
             in if qos = Qos0 then (s1, [WritePacket p])
                else if qos = Qos1
                then (s1\<lparr>pending := (pending s1)(MessageID p \<mapsto> getMsg topic payload qos),
                         pendingQueue := pendingQueue s1 @ [MessageID p]\<rparr>,
                      [WritePacket p])
                else (s1, [LogError ''current not support to publish message with qos=2''])))"

definition puback :: "Session \<Rightarrow> uint16 \<Rightarrow> Session" where
  "puback s messageID = s\<lparr>pending := (pending s)(messageID := None)\<rparr>"

text \<open>
  The loop of \<open>doResend\<close>: the first queued id that is still pending, with the queue cut
  to start at it (\<open>s.pendingQueue[i:]\<close>).
\<close>

fun first_pending ::
  "(uint16 \<rightharpoonup> Message) \<Rightarrow> uint16 list \<Rightarrow> (uint16 list \<times> uint16 \<times> Message) option" where
  "first_pending pend [] = None"
| "first_pending pend (idx # rest) =
     (case pend idx of
        Some val \<Rightarrow> Some (idx # rest, idx, val)
      | None \<Rightarrow> first_pending pend rest)"

definition doResend :: "bool \<Rightarrow> Session \<Rightarrow> Session \<times> effect list" where
  "doResend client s =
     (if dom (pending s) = {} then (s\<lparr>pendingQueue := []\<rparr>, [])
      else case first_pending (pending s) (pendingQueue s) of
             None \<Rightarrow> (s, [])
           | Some (queue, idx, val) \<Rightarrow>
               (let s' = s\<lparr>pendingQueue := queue\<rparr>
                in case DecodeString (B64Payload val) of
                     None \<Rightarrow>
                       (s', [LogError ''base64 decode error for Message B64Payload'',
                             Printf ''base64 decode error for Message B64Payload''])
                   | Some payload \<Rightarrow>
                       (s', if client
                            then [WritePacket \<lparr>pkt_Qos = word_of_int (Qos val),
                                   TopicName = Topic val, Payload = payload, MessageID = idx\<rparr>]
                            else [])))"

text \<open>The operations a session goes through, and a run of them from a given session.\<close>

datatype session_op =
  OpSubscribe "string list" "byte list"
| OpUnsubscribe "string list"
| OpPublish bool string "byte list" byte
| OpPuback uint16
| OpResend bool

fun apply_op :: "Session \<Rightarrow> session_op \<Rightarrow> Session option" where
  "apply_op s (OpSubscribe topics qoss) = map_option fst (subscribe s topics qoss)"
| "apply_op s (OpUnsubscribe topics) = Some (fst (unsubscribe s topics))"
| "apply_op s (OpPublish client topic payload qos) =
     Some (fst (publish client s topic payload qos))"
| "apply_op s (OpPuback messageID) = Some (puback s messageID)"
| "apply_op s (OpResend client) = Some (fst (doResend client s))"

fun run_ops :: "Session \<Rightarrow> session_op list \<Rightarrow> Session option" where
  "run_ops s [] = Some s"
| "run_ops s (op # ops) =
     (case apply_op s op of None \<Rightarrow> None | Some s' \<Rightarrow> run_ops s' ops)"

text \<open>The two sides of the session invariant of section 3.\<close>

definition pending_keys :: "Session \<Rightarrow> uint16 set" where
  "pending_keys s = dom (pending s)"

definition queued_ids :: "Session \<Rightarrow> uint16 set" where
  "queued_ids s = set (pendingQueue s)"

text \<open>
  The session of scenario 5 after its subscription: client \<open>c1\<close>, not a clean session,
  subscribed to topic \<open>t\<close> with qos 1.
\<close>

definition session_c1 :: Session where
  "session_c1 =
     fst (the (subscribe (session_init ''eg'' ''c1'' False) [''t''] [1]))"

text \<open>The same session after publishing \<open>x\<close> on \<open>t\<close> with qos 1 and receiving the PUBACK.\<close>

definition session_c1_acked :: Session where
  "session_c1_acked = puback (fst (publish True session_c1 ''t'' [0x78] 1)) 0"

text \<open>
  The guard of \<open>publish\<close> in the words of section 4.8: the topic is subscribed and the
  stored qos is at least the delivery qos.
\<close>

definition subscribed_at :: "Session \<Rightarrow> string \<Rightarrow> byte \<Rightarrow> bool" where
  "subscribed_at s topic qos =
     (case Topics (info s) topic of None \<Rightarrow> False | Some q \<Rightarrow> uint qos \<le> q)"

text \<open>Every stored qos is a byte value, as \<open>subscribe\<close> writes it (\<open>int(qoss[i])\<close>).\<close>

definition qos_bytes :: "Session \<Rightarrow> bool" where
  "qos_bytes s \<longleftrightarrow> (\<forall>t q. Topics (info s) t = Some q \<longrightarrow> 0 \<le> q \<and> q < 256)"

text \<open>The PUBLISH packets among the effects of a call, in the order they were handed over.\<close>

fun packets_of :: "effect list \<Rightarrow> PublishPacket list" where
  "packets_of [] = []"
| "packets_of (WritePacket p # es) = p # packets_of es"
| "packets_of (e # es) = packets_of es"

fun errors_of :: "effect list \<Rightarrow> string list" where
  "errors_of [] = []"
| "errors_of (LogError m # es) = m # errors_of es"
| "errors_of (e # es) = errors_of es"

section \<open>Proxy filter (pkg/filters/proxy/proxy.go)\<close>

text \<open>
  Modelled from the spec: \<open>ServerPoolSpec\<close> and \<open>ServerPool\<close> are declared in a file
  of the package that is not among the sources. Of a pool spec the proxy reads the filter
  expression (\<open>Filter\<close>, nil for the main pool) and the memory cache (\<open>MemoryCache\<close>);
  the pool's own \<open>Validate\<close>, its request matcher \<open>filter.Match\<close>, its \<open>handle\<close> and
  the constructor \<open>NewServerPool\<close> are parameters of the functions below.
\<close>

record ('f, 'm) ServerPoolSpec =
  Filter :: "'f option"
  MemoryCache :: "'m option"

record ('f, 'm) proxy_Spec =
  Pools :: "('f, 'm) ServerPoolSpec list"
  MirrorPool :: "('f, 'm) ServerPoolSpec option"

datatype validate_error =
  PoolInvalid nat string         \<comment> \<open>\<open>pool %d: %v\<close>\<close>
| MainPoolRequired               \<comment> \<open>\<open>one and only one mainPool is required\<close>\<close>
| MirrorFilterRequired           \<comment> \<open>\<open>filter of mirrorPool is required\<close>\<close>
| MirrorMemoryCache              \<comment> \<open>\<open>memoryCache must be empty in mirrorPool\<close>\<close>

text \<open>
  The loop of \<open>Spec.Validate\<close>: \<open>i\<close> is the index, \<open>numMainPool\<close> the count so far; the
  first pool that fails its own validation ends the loop with the error.
\<close>

fun validate_pools ::
  "(('f, 'm) ServerPoolSpec \<Rightarrow> string option) \<Rightarrow> nat \<Rightarrow> nat \<Rightarrow> ('f, 'm) ServerPoolSpec list
   \<Rightarrow> validate_error + nat" where
  "validate_pools pool_Validate i numMainPool [] = Inr numMainPool"
| "validate_pools pool_Validate i numMainPool (pool # rest) =
     (let numMainPool' = (if Filter pool = None then numMainPool + 1 else numMainPool)
      in case pool_Validate pool of
           Some err \<Rightarrow> Inl (PoolInvalid i err)
         | None \<Rightarrow> validate_pools pool_Validate (i + 1) numMainPool' rest)"

text \<open>\<open>Spec.Validate\<close>; \<open>None\<close> is the nil error.\<close>

definition proxy_Validate ::
  "(('f, 'm) ServerPoolSpec \<Rightarrow> string option) \<Rightarrow> ('f, 'm) proxy_Spec \<Rightarrow> validate_error option"
  where
  "proxy_Validate pool_Validate s =
     (case validate_pools pool_Validate 0 0 (Pools s) of
        Inl err \<Rightarrow> Some err
      | Inr numMainPool \<Rightarrow>
          if numMainPool \<noteq> 1 then Some MainPoolRequired
          else case MirrorPool s of
                 None \<Rightarrow> None
               | Some mirror \<Rightarrow>
                   if Filter mirror = None then Some MirrorFilterRequired
                   else if MemoryCache mirror \<noteq> None then Some MirrorMemoryCache
                   else None)"

text \<open>The number of pools of a spec that have no filter expression.\<close>

definition filterless_pools :: "('f, 'm) proxy_Spec \<Rightarrow> nat" where
  "filterless_pools s = length (filter (\<lambda>pool. Filter pool = None) (Pools s))"

text \<open>
  The pools of a running \<open>Proxy\<close>. \<open>reload\<close> builds them from the spec in the order of
  \<open>Pools\<close>: a pool without filter becomes the main pool (the last one wins), the others
  are appended to the candidates.
\<close>

record 'pool Proxy =
  mainPool :: "'pool option"
  candidatePools :: "'pool list"
  mirrorPool :: "'pool option"

datatype pool_role = MainRole | CandidateRole nat | MirrorRole

fun reload_pools ::
  "(('f, 'm) ServerPoolSpec \<Rightarrow> pool_role \<Rightarrow> 'pool) \<Rightarrow> 'pool Proxy
   \<Rightarrow> ('f, 'm) ServerPoolSpec list \<Rightarrow> 'pool Proxy" where
  "reload_pools NewServerPool p [] = p"
| "reload_pools NewServerPool p (spec # rest) =
     (if Filter spec = None
      then reload_pools NewServerPool (p\<lparr>mainPool := Some (NewServerPool spec MainRole)\<rparr>) rest
      else reload_pools NewServerPool
             (p\<lparr>candidatePools := candidatePools p
                  @ [NewServerPool spec (CandidateRole (length (candidatePools p)))]\<rparr>) rest)"

definition proxy_reload ::
  "(('f, 'm) ServerPoolSpec \<Rightarrow> pool_role \<Rightarrow> 'pool) \<Rightarrow> 'pool Proxy \<Rightarrow> ('f, 'm) proxy_Spec
   \<Rightarrow> 'pool Proxy" where
  "proxy_reload NewServerPool p s =
     (let p1 = reload_pools NewServerPool p (Pools s)
      in case MirrorPool s of
           None \<Rightarrow> p1
         | Some mirror \<Rightarrow> p1\<lparr>mirrorPool := Some (NewServerPool mirror MirrorRole)\<rparr>)"

text \<open>
  The loop of \<open>Handle\<close> over the candidates: \<open>sp\<close> starts as the main pool (nil when
  the proxy has none) and the first candidate whose filter matches replaces it and ends
  the loop.
\<close>

fun choose_pool ::
  "('pool \<Rightarrow> 'req \<Rightarrow> bool) \<Rightarrow> 'req \<Rightarrow> 'pool option \<Rightarrow> 'pool list \<Rightarrow> 'pool option" where
  "choose_pool Match req sp [] = sp"
| "choose_pool Match req sp (v # rest) =
     (if Match v req then Some v else choose_pool Match req sp rest)"

text \<open>
  What one call of \<open>Handle\<close> does: the goroutines it starts (\<open>go mirrorPool.handle(ctx,
  true)\<close>, whose return value Go discards), the pool it calls itself and the string it
  returns. With no main pool and no matching candidate \<open>sp.handle\<close> dereferences nil
  (\<open>None\<close>).
\<close>

record 'pool handled =
  spawned :: "'pool list"
  chosen :: 'pool
  result :: string

definition proxy_Handle ::
  "('pool \<Rightarrow> 'req \<Rightarrow> bool) \<Rightarrow> ('pool \<Rightarrow> 'ctx \<Rightarrow> bool \<Rightarrow> string) \<Rightarrow> ('ctx \<Rightarrow> 'req)
   \<Rightarrow> 'pool Proxy \<Rightarrow> 'ctx \<Rightarrow> 'pool handled option" where
  "proxy_Handle Match handle Request p ctx =
     (let req = Request ctx;
          mirror = (case mirrorPool p of
                      None \<Rightarrow> []
                    | Some m \<Rightarrow> if Match m req then [m] else [])
      in case choose_pool Match req (mainPool p) (candidatePools p) of
           None \<Rightarrow> None
         | Some sp \<Rightarrow> Some \<lparr>spawned = mirror, chosen = sp, result = handle sp ctx False\<rparr>)"

text \<open>
  An example proxy: pools are named by strings, a request is its path, a pool
  matches the paths that start with its name, and a pool answers with its own name.
\<close>

definition demo_proxy :: "string Proxy" where
  "demo_proxy = \<lparr>mainPool = Some ''main'', candidatePools = [''/v2'', ''/v'', ''/v1''],
                 mirrorPool = Some ''/v1''\<rparr>"

definition demo_Match :: "string \<Rightarrow> string \<Rightarrow> bool" where
  "demo_Match pool path = (take (length pool) path = pool)"

definition demo_handle :: "string \<Rightarrow> string \<Rightarrow> bool \<Rightarrow> string" where
  "demo_handle pool ctx mirror = (if mirror then ''mirror:'' @ pool else pool)"

section \<open>HTTPServer runtime (package httpserver)\<close>

text \<open>
  Modelled from the spec: the declaration of the HTTPServer \<open>Spec\<close> is not among the
  sources. The record has the fields that the runtime reads (\<open>Port\<close>, \<open>KeepAlive\<close>,
  \<open>KeepAliveTimeout\<close>, \<open>HTTPS\<close>, \<open>HTTP3\<close>, \<open>MaxConnections\<close>) or clears in
  \<open>needRestartServer\<close> (\<open>MaxConnections\<close>, \<open>CacheSize\<close>, \<open>XForwardedFor\<close>, \<open>Tracing\<close>,
  \<open>IPFilter\<close>, \<open>Rules\<close>) and the certificate fields of section 6. The types of the
  tracing spec, the IP filter spec and a rule are parameters; all further fields of the
  struct together are the field \<open>others\<close>, of a type that is a parameter as well.
\<close>

record ('t, 'i, 'r, 'o) Spec =
  HTTP3 :: bool
  Port :: "16 word"
  KeepAlive :: bool
  KeepAliveTimeout :: string
  MaxConnections :: "32 word"
  HTTPS :: bool
  CacheSize :: "32 word"
  XForwardedFor :: bool
  Tracing :: "'t option"
  CertBase64 :: string
  KeyBase64 :: string
  IPFilter :: "'i option"
  Rules :: "'r list"
  others :: 'o

text \<open>\<open>supervisor.Spec\<close>: the object's name and its object spec (nil or a \<open>*Spec\<close>).\<close>

record ('t, 'i, 'r, 'o) superSpec =
  Name :: string
  ObjectSpec :: "('t, 'i, 'r, 'o) Spec option"

datatype stateType = stateNil | stateFailed | stateRunning | stateClosed

text \<open>The \<open>http.Server\<close> that \<open>startServer\<close> builds; \<open>IdleTimeout\<close> is the text that
  went through \<open>time.ParseDuration\<close>, or \<open>None\<close> for \<open>defaultKeepAliveTimeout\<close>.\<close>

record http_Server =
  Addr :: "16 word"
  IdleTimeout :: "string option"
  KeepAlivesEnabled :: bool
  TLS :: bool

text \<open>
  The runtime. \<open>err\<close> holds the message of the stored error (\<open>errNil\<close> is the empty
  message), \<open>limitListener\<close> the connection limit of the limit listener when there is
  one, \<open>server3\<close> whether the HTTP/3 server exists. The event channel, the statistics and
  the mux are outside the model; calls that leave the runtime are recorded as actions.
\<close>

record ('t, 'i, 'r, 'o) runtime =
  rt_superSpec :: "('t, 'i, 'r, 'o) superSpec"
  spec :: "('t, 'i, 'r, 'o) Spec option"
  server :: "http_Server option"
  server3 :: bool
  startNum :: "64 word"
  state :: stateType
  err :: string
  limitListener :: "32 word option"

datatype ('t, 'i, 'r, 'o) action =
  MuxReload "('t, 'i, 'r, 'o) superSpec"     \<comment> \<open>\<open>r.mux.reload(nextSuperSpec, muxMapper)\<close>\<close>
| LogBug                                 \<comment> \<open>\<open>logger.Errorf("BUG: nextSpec is nil")\<close>\<close>
| CloseServer                            \<comment> \<open>entry of \<open>closeServer\<close>\<close>
| Server3Close                           \<comment> \<open>\<open>r.server3.Close()\<close>\<close>
| ServerShutdown                         \<comment> \<open>\<open>r.server.Shutdown(ctx)\<close>\<close>
| StartServer                            \<comment> \<open>entry of \<open>startServer\<close>\<close>
| Listen "16 word"                       \<comment> \<open>\<open>gnet.Listen("tcp", ":port")\<close>\<close>
| RunHTTP3Server "64 word"               \<comment> \<open>\<open>go r.runHTTP3Server(startNum)\<close>\<close>
| RunHTTP1And2Server bool "64 word"      \<comment> \<open>\<open>go r.runHTTP1And2Server(l, https, startNum)\<close>\<close>

definition errNil :: string where
  "errNil = ''''"

text \<open>\<open>setError\<close>: nil becomes \<open>errNil\<close>, any other error is stored by its message.\<close>

definition setError :: "string option \<Rightarrow> ('t, 'i, 'r, 'o, 'z) runtime_scheme
  \<Rightarrow> ('t, 'i, 'r, 'o, 'z) runtime_scheme" where
  "setError e r = (case e of None \<Rightarrow> r\<lparr>err := errNil\<rparr> | Some msg \<Rightarrow> r\<lparr>err := msg\<rparr>)"

text \<open>
  \<open>needRestartServer\<close>: both specs are copied, the six options that need no restart are
  cleared in the copies, and the copies are compared with \<open>reflect.DeepEqual\<close>.
\<close>

definition clear_hot_options :: "('t, 'i, 'r, 'o) Spec \<Rightarrow> ('t, 'i, 'r, 'o) Spec" where
  "clear_hot_options x =
     x\<lparr>MaxConnections := 0, CacheSize := 0, XForwardedFor := False, Tracing := None,
       IPFilter := None, Rules := []\<rparr>"

definition needRestartServer :: "('t, 'i, 'r, 'o) Spec \<Rightarrow> ('t, 'i, 'r, 'o) Spec \<Rightarrow> bool" where
  "needRestartServer current nextSpec
     \<longleftrightarrow> clear_hot_options current \<noteq> clear_hot_options nextSpec"

text \<open>
  \<open>startServer\<close>. It reads \<open>r.spec\<close> (a nil spec panics: \<open>None\<close>); \<open>listenErr\<close> is what
  \<open>gnet.Listen\<close> returns (\<open>None\<close> when the port could be bound).
\<close>

definition startServer :: "string option \<Rightarrow> ('t, 'i, 'r, 'o) runtime
  \<Rightarrow> (('t, 'i, 'r, 'o) runtime \<times> ('t, 'i, 'r, 'o) action list) option" where
  "startServer listenErr r =
     (case spec r of
        None \<Rightarrow> None
      | Some sp \<Rightarrow>
          (let srv = \<lparr>Addr = Port sp,
                      IdleTimeout = (if KeepAliveTimeout sp \<noteq> '''' then Some (KeepAliveTimeout sp)
                                     else None),
                      KeepAlivesEnabled = KeepAlive sp, TLS = HTTPS sp\<rparr>;
               r1 = setError None
                      (r\<lparr>server := Some srv, startNum := startNum r + 1, state := stateRunning\<rparr>)
           in if HTTP3 sp
              then Some (r1\<lparr>server3 := True\<rparr>, [StartServer, RunHTTP3Server (startNum r1)])
              else case listenErr of
                     Some e \<Rightarrow>
                       Some (setError (Some e) (r1\<lparr>state := stateFailed\<rparr>),
                             [StartServer, Listen (Port sp)])
                   | None \<Rightarrow>
                       Some (r1\<lparr>limitListener := Some (MaxConnections sp)\<rparr>,
                             [StartServer, Listen (Port sp),
                              RunHTTP1And2Server (HTTPS sp) (startNum r1)])))"

definition closeServer :: "('t, 'i, 'r, 'o) runtime \<Rightarrow> ('t, 'i, 'r, 'o) action list" where
  "closeServer r =
     (if server3 r then [CloseServer, Server3Close]
      else if server r \<noteq> None then [CloseServer, ServerShutdown]
      else [CloseServer])"

text \<open>
  \<open>reload\<close>. The next spec is \<open>nextSuperSpec.ObjectSpec()\<close>; the result is \<open>None\<close> only
  when \<open>startServer\<close> panics, which needs a nil \<open>r.spec\<close> and does not happen here.
\<close>

definition reload :: "string option \<Rightarrow> ('t, 'i, 'r, 'o) superSpec \<Rightarrow> ('t, 'i, 'r, 'o) runtime
  \<Rightarrow> (('t, 'i, 'r, 'o) runtime \<times> ('t, 'i, 'r, 'o) action list) option" where
  "reload listenErr nextSuperSpec r =
     (let r1 = r\<lparr>rt_superSpec := nextSuperSpec\<rparr>;
          nextSpec = ObjectSpec nextSuperSpec;
          r2 = (case (nextSpec, limitListener r1) of
                  (Some n, Some l) \<Rightarrow> r1\<lparr>limitListener := Some (MaxConnections n)\<rparr>
                | _ \<Rightarrow> r1)
      in case (spec r2, nextSpec) of
           (None, None) \<Rightarrow> Some (r2, [MuxReload nextSuperSpec, LogBug])
         | (None, Some n) \<Rightarrow>
             map_option (\<lambda>(r', acts). (r', MuxReload nextSuperSpec # acts))
               (startServer listenErr (r2\<lparr>spec := Some n\<rparr>))
         | (Some c, None) \<Rightarrow>
             Some (r2\<lparr>spec := None\<rparr>,
                   [MuxReload nextSuperSpec, LogBug] @ closeServer (r2\<lparr>spec := None\<rparr>))
         | (Some c, Some n) \<Rightarrow>
             if needRestartServer c n
             then map_option
                    (\<lambda>(r', acts).
                       (r', MuxReload nextSuperSpec # closeServer (r2\<lparr>spec := Some n\<rparr>) @ acts))
                    (startServer listenErr (r2\<lparr>spec := Some n\<rparr>))
             else Some (r2\<lparr>spec := Some n\<rparr>, [MuxReload nextSuperSpec]))"

text \<open>The \<open>serveFailed\<close> event and its handler.\<close>

record eventServeFailed =
  ev_startNum :: "64 word"
  ev_err :: "string option"

definition handleEventServeFailed ::
  "eventServeFailed \<Rightarrow> ('t, 'i, 'r, 'o) runtime \<Rightarrow> ('t, 'i, 'r, 'o) runtime" where
  "handleEventServeFailed e r =
     (if startNum r > ev_startNum e then r
      else setError (ev_err e) (r\<lparr>state := stateFailed\<rparr>))"

definition handleEventCheckFailed :: "string option \<Rightarrow> ('t, 'i, 'r, 'o) runtime
  \<Rightarrow> (('t, 'i, 'r, 'o) runtime \<times> ('t, 'i, 'r, 'o) action list) option" where
  "handleEventCheckFailed listenErr r =
     (if state r = stateFailed then startServer listenErr r else Some (r, []))"

text \<open>
  The restart-relevant part of the claim in its own words: the two specs differ in some
  field other than \<open>Rules\<close>, \<open>MaxConnections\<close>, \<open>CacheSize\<close>, \<open>XForwardedFor\<close>,
  \<open>Tracing\<close> and \<open>IPFilter\<close>.
\<close>

definition differs_outside_hot_options ::
  "('t, 'i, 'r, 'o) Spec \<Rightarrow> ('t, 'i, 'r, 'o) Spec \<Rightarrow> bool" where
  "differs_outside_hot_options x y \<longleftrightarrow>
     HTTP3 x \<noteq> HTTP3 y \<or> Port x \<noteq> Port y \<or> KeepAlive x \<noteq> KeepAlive y
     \<or> KeepAliveTimeout x \<noteq> KeepAliveTimeout y \<or> HTTPS x \<noteq> HTTPS y
     \<or> CertBase64 x \<noteq> CertBase64 y \<or> KeyBase64 x \<noteq> KeyBase64 y
     \<or> others x \<noteq> others y"

text \<open>The default spec of \<open>DefaultSpec()\<close> on port 10080, and a running runtime on it.\<close>

definition demo_spec :: "(string, string, string, unit) Spec" where
  "demo_spec =
     \<lparr>HTTP3 = False, Port = 10080, KeepAlive = True, KeepAliveTimeout = ''60s'',
      MaxConnections = 10240, HTTPS = False, CacheSize = 0, XForwardedFor = False,
      Tracing = None, CertBase64 = '''', KeyBase64 = '''', IPFilter = None, Rules = [],
      others = ()\<rparr>"

definition demo_runtime :: "(string, string, string, unit) runtime" where
  "demo_runtime =
     \<lparr>rt_superSpec = \<lparr>Name = ''demo'', ObjectSpec = Some demo_spec\<rparr>,
      spec = Some demo_spec,
      server = Some \<lparr>Addr = 10080, IdleTimeout = Some ''60s'', KeepAlivesEnabled = True,
                     TLS = False\<rparr>,
      server3 = False, startNum = 1, state = stateRunning, err = '''',
      limitListener = Some 10240\<rparr>"

text \<open>
  A reload stops and restarts the listener when, among its actions, \<open>closeServer\<close> is
  entered once and then \<open>startServer\<close> once; it leaves the listener alone when neither
  is entered.
\<close>

definition restarts :: "('t, 'i, 'r, 'o) action list \<Rightarrow> bool" where
  "restarts acts \<longleftrightarrow>
     filter (\<lambda>a. a = CloseServer \<or> a = StartServer) acts = [CloseServer, StartServer]"

definition leaves_listener :: "('t, 'i, 'r, 'o) action list \<Rightarrow> bool" where
  "leaves_listener acts \<longleftrightarrow> CloseServer \<notin> set acts \<and> StartServer \<notin> set acts"

section \<open>UDP proxy session (pkg/object/udpproxy/session.go and the udpproxy runtime)\<close>

text \<open>
  \<open>time.Duration\<close> is an int64 count of nanoseconds; products wrap as int64 products do.
\<close>

type_synonym Duration = "64 word"

definition Millisecond :: Duration where "Millisecond = 1000000"
definition Second :: Duration where "Second = 1000000000"

text \<open>
  Modelled from the spec: the udpproxy \<open>Spec\<close> is declared in a file that is not among
  the sources. The runtime reads its two idle timeouts, counts of milliseconds, and
  converts them with \<open>time.Duration(...)\<close>.
\<close>

record udp_Spec =
  UpstreamIdleTimeout :: "32 word"
  DownstreamIdleTimeout :: "32 word"

text \<open>A packet is its payload; \<open>writeBuf\<close> is the channel's buffer, oldest packet first.\<close>

type_synonym Packet = "byte list"

record session =
  upstreamAddr :: string
  downstreamAddr :: string
  downstreamIdleTimeout :: Duration
  upstreamIdleTimeout :: Duration
  writeBuf :: "Packet list"
  stopped :: bool

text \<open>The capacity of \<open>make(chan *iobufferpool.Packet, 512)\<close>.\<close>

definition writeBuf_cap :: nat where
  "writeBuf_cap = 512"

text \<open>\<open>newSession\<close>, with its parameters in the order of the source.\<close>

definition newSession :: "string \<Rightarrow> string \<Rightarrow> Duration \<Rightarrow> Duration \<Rightarrow> session" where
  "newSession downstreamAddr' upstreamAddr' downstreamIdleTimeout' upstreamIdleTimeout' =
     \<lparr>upstreamAddr = upstreamAddr', downstreamAddr = downstreamAddr',
      downstreamIdleTimeout = downstreamIdleTimeout',
      upstreamIdleTimeout = upstreamIdleTimeout',
      writeBuf = [], stopped = False\<rparr>"

text \<open>
  The session that \<open>getSession\<close> creates for a downstream address: the call passes
  \<open>time.Duration(r.spec.UpstreamIdleTimeout)*time.Millisecond\<close> as the fourth argument
  and the downstream timeout as the fifth.
\<close>

definition getSession_new :: "udp_Spec \<Rightarrow> string \<Rightarrow> string \<Rightarrow> session" where
  "getSession_new spec' downstreamAddr' upstreamAddr' =
     newSession downstreamAddr' upstreamAddr'
       (ucast (UpstreamIdleTimeout spec') * Millisecond)
       (ucast (DownstreamIdleTimeout spec') * Millisecond)"

text \<open>
  \<open>getSession\<close>: the session of the downstream address is reused unless it is closed;
  otherwise a new one is made on the upstream address that the pool gives (\<open>None\<close>: no
  upstream, an error) and stored under the address.
\<close>

definition getSession ::
  "udp_Spec \<Rightarrow> string option \<Rightarrow> (string \<rightharpoonup> session) \<Rightarrow> string
   \<Rightarrow> ((string \<rightharpoonup> session) \<times> session) option" where
  "getSession spec' upstream sessions key =
     (case sessions key of
        Some s \<Rightarrow>
          if \<not> stopped s then Some (sessions, s)
          else (case upstream of
                  None \<Rightarrow> None
                | Some addr \<Rightarrow>
                    Some (sessions(key \<mapsto> getSession_new spec' key addr),
                          getSession_new spec' key addr))
      | None \<Rightarrow>
          (case upstream of
             None \<Rightarrow> None
           | Some addr \<Rightarrow>
               Some (sessions(key \<mapsto> getSession_new spec' key addr),
                     getSession_new spec' key addr)))"

text \<open>The duration that \<open>Write\<close> hands to \<open>timerpool.Get\<close> when the channel is full.\<close>

definition Write_timer :: "session \<Rightarrow> Duration" where
  "Write_timer s =
     (if upstreamIdleTimeout s \<noteq> 0 then upstreamIdleTimeout s * Millisecond
      else 60 * Second)"

text \<open>
  \<open>Write\<close>. A channel with room takes the packet at once. Otherwise the call waits in a
  \<open>select\<close> and the outcome is whichever of its three cases comes first, which the
  scheduler and the clock decide: the buffer accepts the packet after the writer goroutine
  took \<open>k\<close> packets out, the session is stopped, or the timer fires.
\<close>

datatype wait_outcome = BufferAccepts nat | SessionStopped | TimerFires

record written =
  error :: "string option"
  released :: bool
  timer :: "Duration option"

definition Write :: "wait_outcome \<Rightarrow> session \<Rightarrow> Packet \<Rightarrow> session \<times> written" where
  "Write outcome s buf =
     (if length (writeBuf s) < writeBuf_cap
      then (s\<lparr>writeBuf := writeBuf s @ [buf]\<rparr>,
            \<lparr>error = None, released = False, timer = None\<rparr>)
      else case outcome of
             BufferAccepts k \<Rightarrow>
               (s\<lparr>writeBuf := drop (max 1 k) (writeBuf s) @ [buf]\<rparr>,
                \<lparr>error = None, released = False, timer = Some (Write_timer s)\<rparr>)
           | SessionStopped \<Rightarrow>
               (s, \<lparr>error = None, released = True, timer = Some (Write_timer s)\<rparr>)
           | TimerFires \<Rightarrow>
               (s, \<lparr>error = Some ''write data to channel timeout'', released = True,
                    timer = Some (Write_timer s)\<rparr>))"

text \<open>
  A spec with an upstream idle timeout of one second and a downstream idle timeout of five
  seconds, and the session that \<open>getSession\<close> makes from it, with a full channel.
\<close>

definition spec_1s_5s :: udp_Spec where
  "spec_1s_5s = \<lparr>UpstreamIdleTimeout = 1000, DownstreamIdleTimeout = 5000\<rparr>"

definition full_session_1s_5s :: session where
  "full_session_1s_5s =
     (getSession_new spec_1s_5s ''10.0.0.7:4000'' ''10.0.0.9:53'')
       \<lparr>writeBuf := replicate 512 []\<rparr>"

section \<open>HTTPStat (package httpstat)\<close>

text \<open>
  The counters of \<open>HTTPStat\<close> are uint64. The EWMA rates, the duration sampler and the
  code counter belong to other packages and take no part in the latency aggregates; they
  are left out of the record. \<open>total\<close>, \<open>min\<close> and \<open>max\<close> carry a suffix, the names
  being HOL's.
\<close>

record HTTPStat =
  count :: "64 word"
  errCount :: "64 word"
  total_ms :: "64 word"
  min_ms :: "64 word"
  mean :: "64 word"
  max_ms :: "64 word"
  reqSize :: "64 word"
  respSize :: "64 word"

text \<open>\<open>Metric\<close>; \<open>Duration\<close> is a \<open>time.Duration\<close>, an int64 of nanoseconds.\<close>

record Metric =
  StatusCode :: int
  Duration :: "64 word"
  ReqSize :: "64 word"
  RespSize :: "64 word"

definition isErr :: "Metric \<Rightarrow> bool" where
  "isErr m \<longleftrightarrow> StatusCode m \<ge> 400"

definition New :: HTTPStat where
  "New = \<lparr>count = 0, errCount = 0, total_ms = 0, min_ms = 0, mean = 0, max_ms = 0,
          reqSize = 0, respSize = 0\<rparr>"

text \<open>
  \<open>Duration.Milliseconds()\<close> is the int64 quotient by 10^6, rounded towards zero as Go
  divides.
\<close>

definition Milliseconds :: "64 word \<Rightarrow> int" where
  "Milliseconds d =
     (if sint d < 0 then - ((- sint d) div 1000000) else sint d div 1000000)"

text \<open>\<open>uint64(m.Duration.Milliseconds())\<close>: the duration as \<open>Stat\<close> records it.\<close>

definition recorded :: "Metric \<Rightarrow> 64 word" where
  "recorded m = word_of_int (Milliseconds (Duration m))"

text \<open>
  \<open>Stat\<close>. All sums wrap at 2^64. \<open>hs.total / hs.count\<close> panics when the count has
  wrapped to zero (\<open>None\<close>).
\<close>

definition Stat :: "Metric \<Rightarrow> HTTPStat \<Rightarrow> HTTPStat option" where
  "Stat m hs =
     (let hs1 = hs\<lparr>count := count hs + 1\<rparr>;
          hs2 = (if isErr m then hs1\<lparr>errCount := errCount hs1 + 1\<rparr> else hs1);
          duration = recorded m;
          hs3 = hs2\<lparr>total_ms := total_ms hs2 + duration\<rparr>;
          sizes = (\<lambda>h. h\<lparr>reqSize := reqSize h + ReqSize m, respSize := respSize h + RespSize m\<rparr>)
      in if count hs3 = 1
         then Some (sizes (hs3\<lparr>min_ms := duration, mean := duration, max_ms := duration\<rparr>))
         else
           (let hs4 = (if duration < min_ms hs3 then hs3\<lparr>min_ms := duration\<rparr> else hs3);
                hs5 = (if duration > max_ms hs4 then hs4\<lparr>max_ms := duration\<rparr> else hs4)
            in if count hs5 = 0 then None
               else Some (sizes (hs5\<lparr>mean := total_ms hs5 div count hs5\<rparr>))))"

text \<open>A sequence of \<open>Stat\<close> calls, first metric first.\<close>

fun Stat_all :: "HTTPStat \<Rightarrow> Metric list \<Rightarrow> HTTPStat option" where
  "Stat_all hs [] = Some hs"
| "Stat_all hs (m # ms) = (case Stat m hs of None \<Rightarrow> None | Some hs' \<Rightarrow> Stat_all hs' ms)"

text \<open>The recorded durations of a sequence of metrics, as unbounded numbers.\<close>

definition durations :: "Metric list \<Rightarrow> nat list" where
  "durations ms = map (\<lambda>m. unat (recorded m)) ms"

text \<open>
  A metric whose duration is minus one millisecond (a \<open>time.Duration\<close> may be negative),
  and the statistics after recording it twice.
\<close>

definition minus_1ms :: Metric where
  "minus_1ms = \<lparr>StatusCode = 200, Duration = - 1000000, ReqSize = 0, RespSize = 0\<rparr>"

definition after_two_minus_1ms :: HTTPStat where
  "after_two_minus_1ms =
     \<lparr>count = 2, errCount = 0, total_ms = 18446744073709551614,
      min_ms = 18446744073709551615, mean = 9223372036854775807,
      max_ms = 18446744073709551615, reqSize = 0, respSize = 0\<rparr>"

text \<open>
  What the latency aggregates of \<open>hs\<close> should be after recording the metrics \<open>ms\<close>:
  count and total as unbounded numbers, and for a non-empty sequence the minimum, the
  maximum and the mean.
\<close>

definition aggregates_of :: "HTTPStat \<Rightarrow> Metric list \<Rightarrow> bool" where
  "aggregates_of hs ms \<longleftrightarrow>
     unat (count hs) = length ms
     \<and> unat (total_ms hs) = sum_list (durations ms)
     \<and> (ms \<noteq> [] \<longrightarrow>
          unat (min_ms hs) = Min (set (durations ms))
          \<and> unat (max_ms hs) = Max (set (durations ms))
          \<and> mean hs = total_ms hs div count hs)"

text \<open>Three requests of 10 ms, 30 ms and 20 ms.\<close>

definition three_requests :: "Metric list" where
  "three_requests =
     [\<lparr>StatusCode = 200, Duration = 10000000, ReqSize = 1, RespSize = 2\<rparr>,
      \<lparr>StatusCode = 500, Duration = 30000000, ReqSize = 1, RespSize = 2\<rparr>,
      \<lparr>StatusCode = 200, Duration = 20500000, ReqSize = 1, RespSize = 2\<rparr>]"

text \<open>
  A request that took 2^43 ms, which a \<open>time.Duration\<close> can still hold (about 279 years).
\<close>

definition long_request :: Metric where
  "long_request =
     \<lparr>StatusCode = 200, Duration = 8796093022208000000, ReqSize = 0, RespSize = 0\<rparr>"

section \<open>HeaderToJSON filter (pkg/filter/headertojson/headertojson.go)\<close>

text \<open>
  A JSON document as Go decodes it into \<open>interface{}\<close>: an object is a Go map, kept
  here as a list of distinct keys with their values.
\<close>

datatype json =
  JNull
| JBool bool
| JNumber int
| JString string
| JArray "json list"
| JObject "(string \<times> json) list"

text \<open>\<open>m[k] = v\<close> on a Go map: the value under an existing key is replaced.\<close>

fun map_put :: "'k \<Rightarrow> 'v \<Rightarrow> ('k \<times> 'v) list \<Rightarrow> ('k \<times> 'v) list" where
  "map_put k v [] = [(k, v)]"
| "map_put k v ((k', v') # rest) =
     (if k = k' then (k, v) # rest else (k', v') # map_put k v rest)"

text \<open>
  \<open>http.CanonicalHeaderKey\<close> of Go's standard library, after its documentation: a key
  made of token bytes only has the first letter and every letter after a hyphen in upper
  case and the other letters in lower case; any other key is returned as it is.
\<close>

definition lower_letters :: string where
  "lower_letters = ''abcdefghijklmnopqrstuvwxyz''"

definition upper_letters :: string where
  "upper_letters = ''ABCDEFGHIJKLMNOPQRSTUVWXYZ''"

definition validHeaderFieldByte :: "char \<Rightarrow> bool" where
  "validHeaderFieldByte c \<longleftrightarrow>
     c \<in> set (''0123456789'' @ lower_letters @ upper_letters @ ''!#$%&*+-.^_`|~''
              @ [CHR 0x27])"

definition upper_char :: "char \<Rightarrow> char" where
  "upper_char c =
     (case map_of (zip lower_letters upper_letters) c of Some u \<Rightarrow> u | None \<Rightarrow> c)"

definition lower_char :: "char \<Rightarrow> char" where
  "lower_char c =
     (case map_of (zip upper_letters lower_letters) c of Some l \<Rightarrow> l | None \<Rightarrow> c)"

fun canonical :: "bool \<Rightarrow> string \<Rightarrow> string" where
  "canonical upper [] = []"
| "canonical upper (c # cs) =
     (if upper then upper_char c else lower_char c) # canonical (c = CHR ''-'') cs"

definition CanonicalHeaderKey :: "string \<Rightarrow> string" where
  "CanonicalHeaderKey s = (if list_all validHeaderFieldByte s then canonical True s else s)"

text \<open>
  \<open>http.Header\<close> is a map from canonical keys to the values added under them;
  \<open>Get\<close> gives the first value, or the empty string.
\<close>

type_synonym Header = "(string \<times> string list) list"

definition Header_Add :: "string \<Rightarrow> string \<Rightarrow> Header \<Rightarrow> Header" where
  "Header_Add key v h =
     (let k = CanonicalHeaderKey key
      in map_put k ((case map_of h k of None \<Rightarrow> [] | Some vs \<Rightarrow> vs) @ [v]) h)"

definition Header_Get :: "Header \<Rightarrow> string \<Rightarrow> string" where
  "Header_Get h key =
     (case map_of h (CanonicalHeaderKey key) of
        None \<Rightarrow> ''''
      | Some [] \<Rightarrow> ''''
      | Some (v # vs) \<Rightarrow> v)"

text \<open>
  Modelled from the spec: the filter's \<open>Spec\<close> and \<open>HeaderMap\<close> are declared in a file
  that is not among the sources; the test file of the package builds entries with the
  fields \<open>Header\<close>, \<open>JSON\<close> and \<open>Type\<close>, the type being one of \<open>jsonInt\<close>,
  \<open>jsonFloat\<close>, \<open>jsonString\<close>, \<open>jsonBool\<close> and \<open>jsonNull\<close>.
\<close>

datatype json_type = jsonInt | jsonFloat | jsonString | jsonBool | jsonNull

record HeaderMap =
  hm_Header :: string
  hm_JSON :: string
  hm_Type :: json_type

record h2j_Spec =
  spec_HeaderMap :: "HeaderMap list"

text \<open>
  \<open>init\<close> builds the filter's \<open>headerMap\<close>, from canonical header name to JSON field
  name; the declared \<open>Type\<close> of an entry is not read.
\<close>

definition h2j_init :: "h2j_Spec \<Rightarrow> (string \<times> string) list" where
  "h2j_init s =
     fold (\<lambda>header m. map_put (CanonicalHeaderKey (hm_Header header)) (hm_JSON header) m)
       (spec_HeaderMap s) []"

text \<open>
  The request as the filter uses it: its headers and its body. \<open>io.ReadAll\<close> on the body
  gives the bytes or fails (\<open>None\<close>).
\<close>

record Request =
  req_Header :: Header
  req_Body :: "string option"

text \<open>
  The JSON library (\<open>goccy/go-json\<close>) is not code of the repository: \<open>Unmarshal\<close> (bytes
  to document, \<open>None\<close> on a syntax error) and \<open>Marshal\<close> (document to bytes, \<open>None\<close> on
  an error) are parameters of the filter.
\<close>

record json_codec =
  Unmarshal :: "string \<Rightarrow> json option"
  Marshal :: "json \<Rightarrow> string option"

definition resultJSONEncodeDecodeErr :: string where
  "resultJSONEncodeDecodeErr = ''jsonEncodeDecodeErr''"

definition resultBodyReadErr :: string where
  "resultBodyReadErr = ''bodyReadErr''"

text \<open>
  \<open>decodeJSON\<close> decodes into a \<open>map[string]interface{}\<close>: an object gives its map, JSON
  \<open>null\<close> leaves the map empty, anything else is an error. \<open>decodeArrayJSON\<close> does the
  same for a slice of such maps.
\<close>

definition decodeJSON :: "json_codec \<Rightarrow> string \<Rightarrow> (string \<times> json) list option" where
  "decodeJSON codec body =
     (case Unmarshal codec body of
        Some (JObject m) \<Rightarrow> Some m
      | Some JNull \<Rightarrow> Some []
      | _ \<Rightarrow> None)"

fun object_maps :: "json list \<Rightarrow> (string \<times> json) list list option" where
  "object_maps [] = Some []"
| "object_maps (JObject m # rest) = map_option ((#) m) (object_maps rest)"
| "object_maps (JNull # rest) = map_option ((#) []) (object_maps rest)"
| "object_maps (_ # rest) = None"

definition decodeArrayJSON :: "json_codec \<Rightarrow> string \<Rightarrow> (string \<times> json) list list option" where
  "decodeArrayJSON codec body =
     (case Unmarshal codec body of
        Some (JArray elems) \<Rightarrow> object_maps elems
      | Some JNull \<Rightarrow> Some []
      | _ \<Rightarrow> None)"

text \<open>The copy loop \<open>for k, v := range headerMap { bodyMap[k] = v }\<close>.\<close>

definition merge_fields :: "(string \<times> json) list \<Rightarrow> (string \<times> json) list \<Rightarrow> (string \<times> json) list"
  where
  "merge_fields headerMap bodyMap = fold (\<lambda>(k, v) m. map_put k v m) headerMap bodyMap"

definition handleBodyMap ::
  "json_codec \<Rightarrow> Request \<Rightarrow> (string \<times> json) list \<Rightarrow> (string \<times> json) list
   \<Rightarrow> string \<times> Request" where
  "handleBodyMap codec req bodyMap headerMap =
     (case Marshal codec (JObject (merge_fields headerMap bodyMap)) of
        None \<Rightarrow> (resultJSONEncodeDecodeErr, req)
      | Some body \<Rightarrow> ('''', req\<lparr>req_Body := Some body\<rparr>))"

definition handleBodyArray ::
  "json_codec \<Rightarrow> Request \<Rightarrow> (string \<times> json) list list \<Rightarrow> (string \<times> json) list
   \<Rightarrow> string \<times> Request" where
  "handleBodyArray codec req bodyArray headerMap =
     (case Marshal codec (JArray (map (\<lambda>m. JObject (merge_fields headerMap m)) bodyArray)) of
        None \<Rightarrow> (resultJSONEncodeDecodeErr, req)
      | Some body \<Rightarrow> ('''', req\<lparr>req_Body := Some body\<rparr>))"

text \<open>
  \<open>handle\<close>. The first loop stores each non-empty header value under its JSON name as
  the Go string it is (\<open>headerMap[json] = value\<close>), so every copied field is a JSON
  string.
\<close>

definition collect_headers :: "(string \<times> string) list \<Rightarrow> Header \<Rightarrow> (string \<times> json) list" where
  "collect_headers headerMap hdr =
     fold (\<lambda>(header, name) m.
             (let v = Header_Get hdr header
              in if v \<noteq> '''' then map_put name (JString v) m else m))
       headerMap []"

definition h2j_handle ::
  "json_codec \<Rightarrow> (string \<times> string) list \<Rightarrow> Request \<Rightarrow> string \<times> Request" where
  "h2j_handle codec headerMap req =
     (let fields = collect_headers headerMap (req_Header req)
      in if length fields = 0 then ('''', req)
         else case req_Body req of
                None \<Rightarrow> (resultBodyReadErr, req)
              | Some reqBody \<Rightarrow>
                  if length reqBody = 0 then handleBodyMap codec req [] fields
                  else case decodeJSON codec reqBody of
                         Some bodyMap \<Rightarrow> handleBodyMap codec req bodyMap fields
                       | None \<Rightarrow>
                           (case decodeArrayJSON codec reqBody of
                              Some bodyArray \<Rightarrow> handleBodyArray codec req bodyArray fields
                            | None \<Rightarrow> (resultJSONEncodeDecodeErr, req)))"

text \<open>\<open>Handle\<close> passes the result to the next handler of the context.\<close>

definition h2j_Handle ::
  "(string \<Rightarrow> string) \<Rightarrow> json_codec \<Rightarrow> (string \<times> string) list \<Rightarrow> Request
   \<Rightarrow> string \<times> Request" where
  "h2j_Handle CallNextHandler codec headerMap req =
     (let (res, req') = h2j_handle codec headerMap req in (CallNextHandler res, req'))"

text \<open>
  Scenario 2 of section 8, which is \<open>TestHandleHTTP\<close> of the package: the spec with its
  five typed entries, the request with its five headers and its body, and the next
  handler of the test, which returns the result it is given.
\<close>

definition scenario_spec :: h2j_Spec where
  "scenario_spec = \<lparr>spec_HeaderMap =
     [\<lparr>hm_Header = ''x-int'', hm_JSON = ''int-value'', hm_Type = jsonInt\<rparr>,
      \<lparr>hm_Header = ''x-float'', hm_JSON = ''float-value'', hm_Type = jsonFloat\<rparr>,
      \<lparr>hm_Header = ''x-string'', hm_JSON = ''string-value'', hm_Type = jsonString\<rparr>,
      \<lparr>hm_Header = ''x-bool'', hm_JSON = ''bool-value'', hm_Type = jsonBool\<rparr>,
      \<lparr>hm_Header = ''x-null'', hm_JSON = ''null-value'', hm_Type = jsonNull\<rparr>]\<rparr>"

text \<open>A string in double quotes, and a key with its quoted string value.\<close>

definition dq :: "string \<Rightarrow> string" where
  "dq s = CHR 0x22 # s @ [CHR 0x22]"

definition json_member :: "string \<Rightarrow> string \<Rightarrow> string" where
  "json_member k v = dq k @ '':'' @ dq v"

definition scenario_body :: string where
  "scenario_body = ''{'' @ json_member ''topic'' ''log'' @ '','' @ json_member ''id'' ''abc123'' @ ''}''"

definition scenario_request :: Request where
  "scenario_request =
     \<lparr>req_Header =
        Header_Add ''x-null'' ''null''
          (Header_Add ''x-bool'' ''true''
            (Header_Add ''x-string'' ''string''
              (Header_Add ''x-float'' ''123.0''
                (Header_Add ''x-int'' ''123'' [])))),
      req_Body = Some scenario_body\<rparr>"

text \<open>The document of the request body, and the document that the filter builds from it.\<close>

definition scenario_document :: json where
  "scenario_document = JObject [(''topic'', JString ''log''), (''id'', JString ''abc123'')]"

definition written_document :: json where
  "written_document =
     JObject [(''topic'', JString ''log''), (''id'', JString ''abc123''),
              (''int-value'', JString ''123''), (''float-value'', JString ''123.0''),
              (''string-value'', JString ''string''), (''bool-value'', JString ''true''),
              (''null-value'', JString ''null'')]"

text \<open>The bytes of that document as \<open>json.Marshal\<close> renders a Go map, keys sorted.\<close>

definition written_body :: string where
  "written_body =
     ''{'' @ json_member ''bool-value'' ''true'' @ '','' @ json_member ''float-value'' ''123.0'' @ '',''
     @ json_member ''id'' ''abc123'' @ '','' @ json_member ''int-value'' ''123'' @ '',''
     @ json_member ''null-value'' ''null'' @ '','' @ json_member ''string-value'' ''string'' @ '',''
     @ json_member ''topic'' ''log'' @ ''}''"

text \<open>
  The JSON library on the byte strings and documents of this scenario (on anything else
  this table gives an error): the request body parses to its document, the document that
  the filter builds renders to \<open>written_body\<close>, and those bytes parse back to it.
\<close>

definition scenario_codec :: json_codec where
  "scenario_codec =
     \<lparr>Unmarshal = (\<lambda>body. if body = scenario_body then Some scenario_document
                           else if body = written_body then Some written_document
                           else None),
      Marshal = (\<lambda>doc. if doc = written_document then Some written_body else None)\<rparr>"

text \<open>The value of a field of a JSON object.\<close>

definition json_field :: "json \<Rightarrow> string \<Rightarrow> json option" where
  "json_field doc k = (case doc of JObject m \<Rightarrow> map_of m k | _ \<Rightarrow> None)"

text \<open>
  The parsed body that the claim (and \<open>TestHandleHTTP\<close>) expects: the header values with
  their declared types.
\<close>

definition expected_fields :: "(string \<times> json) list" where
  "expected_fields =
     [(''topic'', JString ''log''), (''id'', JString ''abc123''),
      (''int-value'', JNumber 123), (''float-value'', JNumber 123),
      (''string-value'', JString ''string''), (''bool-value'', JBool True),
      (''null-value'', JNull)]"

section \<open>Properties of the function FSM\<close>

lemmas fsm_names =
  FailedState_def InitialState_def ActiveState_def InactiveState_def DesctroyState_def
  CreateEvent_def StartEvent_def StopEvent_def UpdateEvent_def DeleteEvent_def
  ReadyEvent_def PendingEvent_def ErrorEvent_def

text \<open>What \<open>init()\<close> leaves under one event is the table filtered by that event.\<close>

lemma fold_add_transition:
  "fold add_transition ts m e =
     (if filter (\<lambda>t. Event t = e) ts = [] then m e
      else Some ((case m e of None \<Rightarrow> [] | Some l \<Rightarrow> l) @ filter (\<lambda>t. Event t = e) ts))"
  by (induction ts arbitrary: m) (auto simp: add_transition_def split: option.splits)

lemma transitions_filter:
  "transitions e =
     (if filter (\<lambda>t. Event t = e) table = [] then None
      else Some (filter (\<lambda>t. Event t = e) table))"
  by (simp add: transitions_def fold_add_transition)

lemma scan_transitions_filter:
  "scan_transitions fsm (filter (\<lambda>t. Event t = e) ts) =
     map_option (\<lambda>v. fsm\<lparr>currentState := To v\<rparr>)
       (find (\<lambda>v. Event v = e \<and> From v = currentState fsm) ts)"
  by (induction ts) auto

text \<open>\<open>Next\<close> is a search of the whole table for the pair (current state, event).\<close>

lemma Next_find:
  "Next fsm e =
     (if \<not> validEvent e then (fsm, Some (''unknown event: '' @ e))
      else case find (\<lambda>v. Event v = e \<and> From v = currentState fsm) table of
             Some v \<Rightarrow> (fsm\<lparr>currentState := To v\<rparr>, None)
           | None \<Rightarrow> (fsm, Some (''invalid event: '' @ e @ '', currentState: ''
                                  @ currentState fsm)))"
proof (cases "filter (\<lambda>t. Event t = e) table = []")
  case True
  then have "find (\<lambda>v. Event v = e \<and> From v = currentState fsm) table = None"
    by (auto simp: find_None_iff filter_empty_conv)
  with True show ?thesis
    by (simp add: Next_def transitions_filter)
next
  case False
  then show ?thesis
    by (simp add: Next_def transitions_filter scan_transitions_filter split: option.splits)
qed

lemma table_is_table_4_7: "set (map triple table) = set table_4_7"
  by (simp add: table_def table_4_7_def triple_def mk_transition_def fsm_names insert_commute)

lemma table_keys_distinct: "distinct (map (\<lambda>v. (Event v, From v)) table)"
  by (simp add: table_def mk_transition_def fsm_names)

lemma table_events_valid: "\<forall>v \<in> set table. validEvent (Event v)"
  by (simp add: table_def mk_transition_def validEvent_def fsm_names)

lemma table_never_from_destroyed: "\<forall>v \<in> set table. From v \<noteq> DesctroyState"
  by (simp add: table_def mk_transition_def fsm_names)

lemma find_by_distinct_key:
  "distinct (map key xs) \<Longrightarrow> v \<in> set xs \<Longrightarrow> find (\<lambda>x. key x = key v) xs = Some v"
  by (induction xs) (auto simp: rev_image_eqI)

lemma Next_table_entry:
  assumes "(s, e, t) \<in> set table_4_7"
  shows "Next \<lparr>currentState = s\<rparr> e = (\<lparr>currentState = t\<rparr>, None)"
proof -
  from assms obtain v where v: "v \<in> set table" "triple v = (s, e, t)"
    using table_is_table_4_7 by (metis (no_types, lifting) imageE list.set_map)
  have "find (\<lambda>x. (Event x, From x) = (Event v, From v)) table = Some v"
    using table_keys_distinct v(1) by (rule find_by_distinct_key)
  moreover have "Event v = e" "From v = s" "To v = t"
    using v(2) by (simp_all add: triple_def)
  moreover have "validEvent e"
    using table_events_valid v(1) \<open>Event v = e\<close> by blast
  ultimately show ?thesis
    by (simp add: Next_find)
qed

lemma Next_unknown_event:
  "\<not> validEvent e \<Longrightarrow> \<exists>err. Next fsm e = (fsm, Some err)"
  by (simp add: Next_def)

lemma Next_absent_entry:
  assumes "\<forall>t. (s, e, t) \<notin> set table_4_7"
  shows "\<exists>err. Next \<lparr>currentState = s\<rparr> e = (\<lparr>currentState = s\<rparr>, Some err)"
proof -
  have "\<not> (\<exists>v \<in> set table. Event v = e \<and> From v = s)"
  proof
    assume "\<exists>v \<in> set table. Event v = e \<and> From v = s"
    then obtain v where "v \<in> set table" "Event v = e" "From v = s" by blast
    then have "(s, e, To v) \<in> set (map triple table)"
      by (auto simp: triple_def rev_image_eqI)
    with assms show False
      by (simp only: table_is_table_4_7)
  qed
  then have "find (\<lambda>v. Event v = e \<and> From v = s) table = None"
    by (simp add: find_None_iff)
  then show ?thesis
    by (simp add: Next_find)
qed

lemma Next_destroyed:
  "\<exists>err. Next \<lparr>currentState = DesctroyState\<rparr> e = (\<lparr>currentState = DesctroyState\<rparr>, Some err)"
proof -
  have "find (\<lambda>v. Event v = e \<and> From v = DesctroyState) table = None"
    using table_never_from_destroyed by (auto simp: find_None_iff)
  then show ?thesis
    by (simp add: Next_find)
qed

text \<open>
  Claim C1. From every state and for every event string, \<open>Next\<close> moves the FSM to exactly
  the target that the table of section 4.7 gives for (state, event) and returns no error;
  when the event is not a known event, or the table has no entry for (state, event),
  \<open>Next\<close> returns an error and leaves the current state as it was; from the destroyed
  state every event returns an error.
\<close>

theorem Next_follows_table_4_7:
  "(\<forall>(s, e, t) \<in> set table_4_7.
      Next \<lparr>currentState = s\<rparr> e = (\<lparr>currentState = t\<rparr>, None))
   \<and> ((\<not> validEvent e \<or> (\<forall>t. (s, e, t) \<notin> set table_4_7)) \<longrightarrow>
        (\<exists>err. Next \<lparr>currentState = s\<rparr> e = (\<lparr>currentState = s\<rparr>, Some err)))
   \<and> (\<exists>err. Next \<lparr>currentState = DesctroyState\<rparr> e
               = (\<lparr>currentState = DesctroyState\<rparr>, Some err))"
  using Next_table_entry Next_unknown_event [of e "\<lparr>currentState = s\<rparr>"]
    Next_absent_entry [of s e] Next_destroyed [of e]
  by blast

theorem Next_follows_table_4_7_witness:
  "(''failed'', ''ready'', ''initial'') \<in> set table_4_7
   \<and> Next \<lparr>currentState = ''failed''\<rparr> ''ready'' = (\<lparr>currentState = ''initial''\<rparr>, None)
   \<and> \<not> validEvent ''restart''
   \<and> (\<exists>err. Next \<lparr>currentState = ''active''\<rparr> ''restart''
               = (\<lparr>currentState = ''active''\<rparr>, Some err))
   \<and> (\<forall>t. (''active'', ''update'', t) \<notin> set table_4_7)
   \<and> (\<exists>err. Next \<lparr>currentState = ''active''\<rparr> ''update''
               = (\<lparr>currentState = ''active''\<rparr>, Some err))"
proof -
  have a: "(''failed'', ''ready'', ''initial'') \<in> set table_4_7"
    by (simp add: table_4_7_def)
  have b: "\<not> validEvent ''restart''"
    by (simp add: validEvent_def fsm_names)
  have c: "\<forall>t. (''active'', ''update'', t) \<notin> set table_4_7"
    by (simp add: table_4_7_def fsm_names)
  from a Next_follows_table_4_7 [of "''restart''" "''active''"]
  have "Next \<lparr>currentState = ''failed''\<rparr> ''ready'' = (\<lparr>currentState = ''initial''\<rparr>, None)"
    by blast
  moreover from b Next_follows_table_4_7 [of "''restart''" "''active''"]
  have "\<exists>err. Next \<lparr>currentState = ''active''\<rparr> ''restart''
               = (\<lparr>currentState = ''active''\<rparr>, Some err)"
    by blast
  moreover from c Next_follows_table_4_7 [of "''update''" "''active''"]
  have "\<exists>err. Next \<lparr>currentState = ''active''\<rparr> ''update''
               = (\<lparr>currentState = ''active''\<rparr>, Some err)"
    by blast
  ultimately show ?thesis using a b c by blast
qed

section \<open>Properties of the MQTT session\<close>

subsection \<open>The pending map and the pending queue\<close>

lemma session_c1_value:
  "session_c1 =
     \<lparr>info = \<lparr>EGName = ''eg'', Topics = [''t'' \<mapsto> 1], ClientID = ''c1'', CleanFlag = False\<rparr>,
      pending = Map.empty, pendingQueue = [], nextID = 0\<rparr>"
  by (simp add: session_c1_def subscribe_def session_init_def)

lemma session_c1_acked_value:
  "pending session_c1_acked = Map.empty \<and> pendingQueue session_c1_acked = [0]
   \<and> nextID session_c1_acked = 1"
  by (simp add: session_c1_acked_def session_c1_value publish_def getPacketFromMsg_def
      puback_def Qos0_def Qos1_def)

lemma session_c1_acked_run:
  "run_ops (session_init ''eg'' ''c1'' False)
     [OpSubscribe [''t''] [1], OpPublish True ''t'' [0x78] 1, OpPuback 0]
   = Some session_c1_acked"
  by (simp add: session_c1_acked_def session_c1_def subscribe_def session_init_def)

text \<open>
  Claim C2, as stated, fails: \<open>puback\<close> deletes the id from \<open>pending\<close> and leaves it in
  \<open>pendingQueue\<close>. After subscribe, one qos-1 publish and its PUBACK the pending map is
  empty and the queue still holds packet id 0.
\<close>

theorem pending_keys_not_queue_after_puback:
  "pending_keys session_c1_acked \<noteq> queued_ids session_c1_acked"
  by (simp add: pending_keys_def queued_ids_def session_c1_acked_value)

lemma first_pending_keeps_pending:
  "first_pending pend queue = Some (queue', idx, val) \<Longrightarrow> dom pend \<subseteq> set queue
   \<Longrightarrow> dom pend \<subseteq> set queue'"
proof (induction queue)
  case Nil
  then show ?case by simp
next
  case (Cons x queue)
  show ?case
  proof (cases "pend x")
    case None
    with Cons.prems have "first_pending pend queue = Some (queue', idx, val)"
      and "dom pend \<subseteq> set queue"
      by auto
    then show ?thesis by (rule Cons.IH)
  next
    case (Some m)
    with Cons.prems show ?thesis by auto
  qed
qed

lemma publish_keeps_subset:
  "pending_keys s \<subseteq> queued_ids s \<Longrightarrow>
   pending_keys (fst (publish client s topic payload qos))
     \<subseteq> queued_ids (fst (publish client s topic payload qos))"
  by (auto simp: publish_def getPacketFromMsg_def pending_keys_def queued_ids_def
      split: option.splits)

lemma puback_keeps_subset:
  "pending_keys s \<subseteq> queued_ids s \<Longrightarrow> pending_keys (puback s i) \<subseteq> queued_ids (puback s i)"
  by (auto simp: puback_def pending_keys_def queued_ids_def)

lemma doResend_keeps_subset:
  assumes "pending_keys s \<subseteq> queued_ids s"
  shows "pending_keys (fst (doResend client s)) \<subseteq> queued_ids (fst (doResend client s))"
proof (cases "dom (pending s) = {}")
  case True
  then show ?thesis by (simp add: doResend_def pending_keys_def queued_ids_def)
next
  case False
  show ?thesis
  proof (cases "first_pending (pending s) (pendingQueue s)")
    case None
    with False assms show ?thesis by (simp add: doResend_def pending_keys_def queued_ids_def)
  next
    case (Some r)
    obtain queue idx val where r: "r = (queue, idx, val)" by (cases r)
    from assms Some have "dom (pending s) \<subseteq> set queue"
      unfolding r pending_keys_def queued_ids_def by (rule first_pending_keeps_pending [rotated])
    with False Some show ?thesis
      by (simp add: doResend_def pending_keys_def queued_ids_def r Let_def split: option.splits)
  qed
qed

lemma subscribe_keeps_pending:
  "subscribe s topics qoss = Some r \<Longrightarrow>
   pending (fst r) = pending s \<and> pendingQueue (fst r) = pendingQueue s"
  by (auto simp: subscribe_def Let_def split: option.splits)

lemma unsubscribe_keeps_pending:
  "pending (fst (unsubscribe s topics)) = pending s
   \<and> pendingQueue (fst (unsubscribe s topics)) = pendingQueue s"
  by (simp add: unsubscribe_def Let_def)

lemma apply_op_keeps_subset:
  assumes "pending_keys s \<subseteq> queued_ids s" and "apply_op s op = Some s'"
  shows "pending_keys s' \<subseteq> queued_ids s'"
proof (cases op)
  case (OpSubscribe topics qoss)
  with assms(2) obtain r where "subscribe s topics qoss = Some r" "s' = fst r"
    by auto
  then have "pending s' = pending s \<and> pendingQueue s' = pendingQueue s"
    using subscribe_keeps_pending by blast
  with assms(1) show ?thesis by (simp add: pending_keys_def queued_ids_def)
next
  case (OpUnsubscribe topics)
  with assms(2) have "s' = fst (unsubscribe s topics)" by simp
  then have "pending s' = pending s \<and> pendingQueue s' = pendingQueue s"
    using unsubscribe_keeps_pending by blast
  with assms(1) show ?thesis by (simp add: pending_keys_def queued_ids_def)
next
  case (OpPublish client topic payload qos)
  with assms(2) have "s' = fst (publish client s topic payload qos)" by simp
  then show ?thesis using publish_keeps_subset [OF assms(1)] by simp
next
  case (OpPuback i)
  with assms(2) have "s' = puback s i" by simp
  then show ?thesis using puback_keeps_subset [OF assms(1)] by simp
next
  case (OpResend client)
  with assms(2) have "s' = fst (doResend client s)" by simp
  then show ?thesis using doResend_keeps_subset [OF assms(1)] by simp
qed

lemma run_ops_keeps_subset:
  "pending_keys s \<subseteq> queued_ids s \<Longrightarrow> run_ops s ops = Some s' \<Longrightarrow>
   pending_keys s' \<subseteq> queued_ids s'"
proof (induction ops arbitrary: s)
  case Nil
  then show ?case by simp
next
  case (Cons op ops)
  from Cons.prems(2) obtain s1 where s1: "apply_op s op = Some s1" "run_ops s1 ops = Some s'"
    by (auto split: option.splits)
  from Cons.prems(1) s1(1) have "pending_keys s1 \<subseteq> queued_ids s1"
    by (rule apply_op_keeps_subset)
  then show ?case using s1(2) by (rule Cons.IH)
qed

text \<open>
  Claim C2, amended. For every session, after any sequence of subscribe, unsubscribe,
  publish, puback and background-resend operations that started at \<open>init\<close>, every key of
  the \<open>pending\<close> map is among the packet ids of \<open>pendingQueue\<close> (the queue may still hold
  ids that were acknowledged and not yet dropped by a resend).
\<close>

theorem pending_keys_in_queue:
  "run_ops (session_init brokerName clientIdentifier cleanSession) ops = Some s
   \<Longrightarrow> pending_keys s \<subseteq> queued_ids s"
proof -
  have "pending_keys (session_init brokerName clientIdentifier cleanSession)
          \<subseteq> queued_ids (session_init brokerName clientIdentifier cleanSession)"
    by (simp add: session_init_def pending_keys_def)
  then show "run_ops (session_init brokerName clientIdentifier cleanSession) ops = Some s
    \<Longrightarrow> pending_keys s \<subseteq> queued_ids s"
    by (rule run_ops_keeps_subset)
qed

theorem pending_keys_in_queue_witness:
  "run_ops (session_init ''eg'' ''c1'' False)
     [OpSubscribe [''t''] [1], OpPublish True ''t'' [0x78] 1, OpPuback 0]
     = Some session_c1_acked
   \<and> pending_keys session_c1_acked \<subseteq> queued_ids session_c1_acked"
  using session_c1_acked_run
    pending_keys_in_queue [of "''eg''" "''c1''" False
      "[OpSubscribe [''t''] [1], OpPublish True ''t'' [0x78] 1, OpPuback 0]" session_c1_acked]
  by blast

subsection \<open>What publish dispatches and stores\<close>

lemma byte_of_stored_qos:
  assumes "0 \<le> q" and "q < 256"
  shows "(word_of_int q :: byte) < qos \<longleftrightarrow> \<not> uint qos \<le> q"
proof -
  have "uint (word_of_int q :: byte) = q"
    using assms by (simp add: uint_word_of_int take_bit_int_eq_self)
  then show ?thesis
    by (simp add: word_less_def not_le)
qed

lemma publish_guard:
  assumes "qos_bytes s"
  shows "(case Topics (info s) topic of None \<Rightarrow> True | Some q \<Rightarrow> (word_of_int q :: byte) < qos)
         \<longleftrightarrow> \<not> subscribed_at s topic qos"
proof (cases "Topics (info s) topic")
  case None
  then show ?thesis by (simp add: subscribed_at_def)
next
  case (Some q)
  with assms have "0 \<le> q" "q < 256" by (auto simp: qos_bytes_def)
  then show ?thesis using Some by (simp add: subscribed_at_def byte_of_stored_qos)
qed

lemma publish_not_subscribed:
  assumes "qos_bytes s" and "\<not> subscribed_at s topic qos"
  shows "publish client s topic payload qos = (s, [])"
  using publish_guard [OF assms(1), where topic = topic and qos = qos] assms(2)
  by (auto simp: publish_def split: option.splits)

lemma publish_offline:
  assumes "qos_bytes s" and "subscribed_at s topic qos"
  shows "publish False s topic payload qos
         = (s, [LogError (''client '' @ ClientID (info s) @ '' is offline'')])"
  using publish_guard [OF assms(1), where topic = topic and qos = qos] assms(2)
  by (auto simp: publish_def split: option.splits)

lemma publish_online:
  assumes "qos_bytes s" and "subscribed_at s topic qos"
  shows "publish True s topic payload qos =
     (let p = \<lparr>pkt_Qos = qos, TopicName = topic, Payload = payload, MessageID = nextID s\<rparr>;
          s1 = s\<lparr>nextID := nextID s + 1\<rparr>
      in if qos = 0 then (s1, [WritePacket p])
         else if qos = 1
         then (s1\<lparr>pending := (pending s)(nextID s \<mapsto> getMsg topic payload qos),
                  pendingQueue := pendingQueue s @ [nextID s]\<rparr>, [WritePacket p])
         else (s1, [LogError ''current not support to publish message with qos=2'']))"
  using publish_guard [OF assms(1), where topic = topic and qos = qos] assms(2)
  by (auto simp: publish_def getPacketFromMsg_def Qos0_def Qos1_def Let_def
      split: option.splits)

text \<open>
  Claim C3. For a session whose stored qos values are bytes (as \<open>subscribe\<close> stores
  them) and every call \<open>publish(topic, payload, qos)\<close>: at most one PUBLISH packet is
  handed to the client, the one carrying the next packet id, and only when the topic is
  subscribed with a stored qos at least the delivery qos and the client is connected; at
  the delivery levels that send (qos 0 and qos 1) it is handed over exactly then; at qos 0 nothing is stored; at qos 1 a dispatched message
  is also stored in \<open>pending\<close> under that packet id and the id is appended to
  \<open>pendingQueue\<close> (and nothing is stored when it is not dispatched); at qos 2 no packet
  is sent and nothing is stored, and a call that passed the subscription check with a
  connected client only logs the unsupported-qos error.
\<close>

theorem publish_dispatch:
  assumes "qos_bytes s"
  shows
    "let r = publish client s topic payload qos;
         p = \<lparr>pkt_Qos = qos, TopicName = topic, Payload = payload, MessageID = nextID s\<rparr>;
         passes = (subscribed_at s topic qos \<and> client);
         unchanged = (pending (fst r) = pending s \<and> pendingQueue (fst r) = pendingQueue s)
     in (packets_of (snd r) = [] \<or> packets_of (snd r) = [p] \<and> passes)
        \<and> (qos = 0 \<or> qos = 1 \<longrightarrow> packets_of (snd r) = (if passes then [p] else []))
        \<and> (qos = 0 \<longrightarrow> unchanged)
        \<and> (qos = 1 \<longrightarrow>
             (if passes
              then pending (fst r) = (pending s)(nextID s \<mapsto> getMsg topic payload qos)
                   \<and> pendingQueue (fst r) = pendingQueue s @ [nextID s]
              else unchanged))
        \<and> (qos = 2 \<longrightarrow> packets_of (snd r) = [] \<and> unchanged
             \<and> (passes \<longrightarrow> errors_of (snd r)
                           = [''current not support to publish message with qos=2'']))"
proof (cases "subscribed_at s topic qos")
  case False
  then show ?thesis
    using publish_not_subscribed [OF assms False] by (simp add: Let_def)
next
  case True
  show ?thesis
  proof (cases client)
    case False
    then show ?thesis
      using publish_offline [OF assms True] True by (simp add: Let_def)
  next
    case c: True
    then show ?thesis
      using publish_online [OF assms True] True by (simp add: Let_def)
  qed
qed

lemma qos_bytes_session_c1: "qos_bytes session_c1"
  by (simp add: qos_bytes_def session_c1_value)

theorem publish_dispatch_witness:
  "qos_bytes session_c1
   \<and> packets_of (snd (publish True session_c1 ''t'' [0x78] 0))
       = [\<lparr>pkt_Qos = 0, TopicName = ''t'', Payload = [0x78], MessageID = 0\<rparr>]
   \<and> pending (fst (publish True session_c1 ''t'' [0x78] 0)) = Map.empty
   \<and> packets_of (snd (publish True session_c1 ''t'' [0x78] 1))
       = [\<lparr>pkt_Qos = 1, TopicName = ''t'', Payload = [0x78], MessageID = 0\<rparr>]
   \<and> pending (fst (publish True session_c1 ''t'' [0x78] 1))
       = [0 \<mapsto> \<lparr>Topic = ''t'', B64Payload = ''eA=='', Qos = 1\<rparr>]
   \<and> pendingQueue (fst (publish True session_c1 ''t'' [0x78] 1)) = [0]
   \<and> packets_of (snd (publish True session_c1 ''t'' [0x78] 2)) = []
   \<and> pendingQueue (fst (publish True session_c1 ''t'' [0x78] 2)) = []"
proof -
  have sub: "subscribed_at session_c1 ''t'' 0" "subscribed_at session_c1 ''t'' 1"
    "\<not> subscribed_at session_c1 ''t'' 2"
    by (simp_all add: subscribed_at_def session_c1_value)
  have vals: "pending session_c1 = Map.empty" "pendingQueue session_c1 = []"
    "nextID session_c1 = 0"
    by (simp_all add: session_c1_value)
  have msg: "getMsg ''t'' [0x78] 1 = \<lparr>Topic = ''t'', B64Payload = ''eA=='', Qos = 1\<rparr>"
    by (simp add: getMsg_def b64_char_def b64_alphabet_def)
  show ?thesis
    using publish_dispatch [OF qos_bytes_session_c1, of True "''t''" "[0x78]" 0]
      publish_dispatch [OF qos_bytes_session_c1, of True "''t''" "[0x78]" 1]
      publish_dispatch [OF qos_bytes_session_c1, of True "''t''" "[0x78]" 2]
      qos_bytes_session_c1
    by (simp add: Let_def sub vals msg)
qed

text \<open>The byte range of stored qos values holds in every session that started at \<open>init\<close>.\<close>

lemma subscribe_loop_bytes:
  "subscribe_loop tp topics qoss = Some tp' \<Longrightarrow>
   \<forall>t q. tp t = Some q \<longrightarrow> 0 \<le> q \<and> q < 256 \<Longrightarrow>
   \<forall>t q. tp' t = Some q \<longrightarrow> 0 \<le> q \<and> q < 256"
proof (induction tp topics qoss rule: subscribe_loop.induct)
  case (1 tp qoss)
  then show ?case by simp
next
  case (2 tp t ts)
  then show ?case by simp
next
  case (3 tp t ts q qoss)
  have "0 \<le> uint q" "uint q < 256" using uint_bounded [of q] by simp_all
  with "3.prems"(2) have "\<forall>t' q'. (tp(t \<mapsto> uint q)) t' = Some q' \<longrightarrow> 0 \<le> q' \<and> q' < 256"
    by simp
  moreover from "3.prems"(1) have "subscribe_loop (tp(t \<mapsto> uint q)) ts qoss = Some tp'"
    by simp
  ultimately show ?case by (rule "3.IH" [rotated])
qed

lemma unsubscribe_loop_bytes:
  "\<forall>t q. tp t = Some q \<longrightarrow> 0 \<le> q \<and> q < (256::int) \<Longrightarrow>
   \<forall>t q. unsubscribe_loop tp topics t = Some q \<longrightarrow> 0 \<le> q \<and> q < 256"
proof (induction topics arbitrary: tp)
  case Nil
  then show ?case by simp
next
  case (Cons a topics)
  from Cons.prems have "\<forall>t q. (tp(a := None)) t = Some q \<longrightarrow> 0 \<le> q \<and> q < 256"
    by simp
  then have "\<forall>t q. unsubscribe_loop (tp(a := None)) topics t = Some q
               \<longrightarrow> 0 \<le> q \<and> q < 256"
    by (rule Cons.IH)
  then show ?case by simp
qed

lemma publish_keeps_info: "info (fst (publish client s topic payload qos)) = info s"
  by (simp add: publish_def getPacketFromMsg_def split: option.splits)

lemma doResend_keeps_info: "info (fst (doResend client s)) = info s"
  by (simp add: doResend_def Let_def split: option.splits prod.splits)

lemma apply_op_qos_bytes:
  assumes "qos_bytes s" and "apply_op s op = Some s'"
  shows "qos_bytes s'"
proof (cases op)
  case (OpSubscribe topics qoss)
  with assms(2) obtain tp where tp: "subscribe_loop (Topics (info s)) topics qoss = Some tp"
    and s': "Topics (info s') = tp"
    by (auto simp: subscribe_def Let_def split: option.splits)
  from tp assms(1) have "\<forall>t q. tp t = Some q \<longrightarrow> 0 \<le> q \<and> q < 256"
    unfolding qos_bytes_def by (rule subscribe_loop_bytes)
  then show ?thesis
    by (simp add: qos_bytes_def s')
next
  case (OpUnsubscribe topics)
  with assms(2) have "Topics (info s') = unsubscribe_loop (Topics (info s)) topics"
    by (auto simp: unsubscribe_def Let_def)
  moreover from assms(1)
  have "\<forall>t q. unsubscribe_loop (Topics (info s)) topics t = Some q \<longrightarrow> 0 \<le> q \<and> q < 256"
    unfolding qos_bytes_def by (rule unsubscribe_loop_bytes)
  ultimately show ?thesis
    by (simp add: qos_bytes_def)
next
  case (OpPublish client topic payload qos)
  with assms(2) have "info s' = info s"
    using publish_keeps_info by auto
  with assms(1) show ?thesis by (simp add: qos_bytes_def)
next
  case (OpPuback i)
  with assms(2) have "info s' = info s"
    by (auto simp: puback_def)
  with assms(1) show ?thesis by (simp add: qos_bytes_def)
next
  case (OpResend client)
  with assms(2) have "info s' = info s"
    using doResend_keeps_info by auto
  with assms(1) show ?thesis by (simp add: qos_bytes_def)
qed

lemma run_ops_qos_bytes:
  "qos_bytes s \<Longrightarrow> run_ops s ops = Some s' \<Longrightarrow> qos_bytes s'"
proof (induction ops arbitrary: s)
  case Nil
  then show ?case by simp
next
  case (Cons op ops)
  from Cons.prems(2) obtain s1 where s1: "apply_op s op = Some s1" "run_ops s1 ops = Some s'"
    by (auto split: option.splits)
  from Cons.prems(1) s1(1) have "qos_bytes s1" by (rule apply_op_qos_bytes)
  then show ?case using s1(2) by (rule Cons.IH)
qed

lemma reachable_qos_bytes:
  "run_ops (session_init brokerName clientIdentifier cleanSession) ops = Some s \<Longrightarrow> qos_bytes s"
proof -
  have "qos_bytes (session_init brokerName clientIdentifier cleanSession)"
    by (simp add: qos_bytes_def session_init_def)
  then show "run_ops (session_init brokerName clientIdentifier cleanSession) ops = Some s
    \<Longrightarrow> qos_bytes s"
    by (rule run_ops_qos_bytes)
qed

section \<open>Properties of the Proxy filter\<close>

subsection \<open>Spec.Validate\<close>

lemma validate_pools_count:
  "validate_pools pv i n pools = Inr k \<Longrightarrow>
   k = n + length (filter (\<lambda>pool. Filter pool = None) pools) \<and> (\<forall>pool \<in> set pools. pv pool = None)"
proof (induction pools arbitrary: i n)
  case Nil
  then show ?case by simp
next
  case (Cons pool pools)
  from Cons.prems have ok: "pv pool = None"
    by (simp add: Let_def split: option.splits)
  with Cons.prems
  have "validate_pools pv (i + 1) (if Filter pool = None then n + 1 else n) pools = Inr k"
    by (simp add: Let_def)
  from Cons.IH [OF this] ok show ?case
    by (simp split: if_splits)
qed

lemma validate_pools_all_valid:
  "\<forall>pool \<in> set pools. pv pool = None \<Longrightarrow>
   validate_pools pv i n pools = Inr (n + length (filter (\<lambda>pool. Filter pool = None) pools))"
  by (induction pools arbitrary: i n) (simp_all add: Let_def)

lemma proxy_Validate_nil_iff:
  "proxy_Validate pv s = None \<longleftrightarrow>
     (\<forall>pool \<in> set (Pools s). pv pool = None) \<and> filterless_pools s = 1
     \<and> (case MirrorPool s of
           None \<Rightarrow> True
         | Some mirror \<Rightarrow> Filter mirror \<noteq> None \<and> MemoryCache mirror = None)"
proof (cases "validate_pools pv 0 0 (Pools s)")
  case (Inl err)
  have "\<not> (\<forall>pool \<in> set (Pools s). pv pool = None)"
  proof
    assume "\<forall>pool \<in> set (Pools s). pv pool = None"
    then have "validate_pools pv 0 0 (Pools s)
               = Inr (0 + length (filter (\<lambda>pool. Filter pool = None) (Pools s)))"
      by (rule validate_pools_all_valid)
    with Inl show False by simp
  qed
  with Inl show ?thesis by (simp add: proxy_Validate_def)
next
  case (Inr k)
  from validate_pools_count [OF this]
  have "k = filterless_pools s" "\<forall>pool \<in> set (Pools s). pv pool = None"
    by (simp_all add: filterless_pools_def)
  with Inr show ?thesis
    by (auto simp: proxy_Validate_def split: option.splits)
qed

text \<open>
  Claim C5. \<open>Spec.Validate\<close> returns nil only if exactly one pool of \<open>Pools\<close> has no
  filter expression; it returns an error when the number of filter-less pools is not one;
  and with a mirror pool present it returns an error when the mirror pool has no filter
  expression or declares a memory cache.
\<close>

theorem proxy_Validate_main_and_mirror:
  "(proxy_Validate pv s = None \<longrightarrow> filterless_pools s = 1)
   \<and> (filterless_pools s \<noteq> 1 \<longrightarrow> proxy_Validate pv s \<noteq> None)
   \<and> (\<forall>mirror. MirrorPool s = Some mirror
         \<and> (Filter mirror = None \<or> MemoryCache mirror \<noteq> None)
         \<longrightarrow> proxy_Validate pv s \<noteq> None)"
  using proxy_Validate_nil_iff [where pv = pv and s = s] by auto

theorem proxy_Validate_main_and_mirror_witness:
  "proxy_Validate (\<lambda>pool. None)
     \<lparr>Pools = [\<lparr>Filter = Some ''path=/v2'', MemoryCache = None\<rparr>,
               \<lparr>Filter = None, MemoryCache = Some ''cache''\<rparr>],
      MirrorPool = None :: (string, string) ServerPoolSpec option\<rparr> = None
   \<and> filterless_pools
       \<lparr>Pools = [\<lparr>Filter = Some ''path=/v2'', MemoryCache = None\<rparr>,
                 \<lparr>Filter = None, MemoryCache = Some ''cache''\<rparr>],
        MirrorPool = None :: (string, string) ServerPoolSpec option\<rparr> = 1
   \<and> filterless_pools
       \<lparr>Pools = [\<lparr>Filter = Some ''path=/v2'', MemoryCache = None :: string option\<rparr>],
        MirrorPool = None\<rparr> \<noteq> 1
   \<and> proxy_Validate (\<lambda>pool. None)
       \<lparr>Pools = [\<lparr>Filter = Some ''path=/v2'', MemoryCache = None :: string option\<rparr>],
        MirrorPool = None\<rparr> \<noteq> None
   \<and> proxy_Validate (\<lambda>pool. None)
       \<lparr>Pools = [\<lparr>Filter = None, MemoryCache = None\<rparr>],
        MirrorPool = Some \<lparr>Filter = Some ''path=/v2'', MemoryCache = Some ''cache''\<rparr>\<rparr>
       \<noteq> None"
proof -
  let ?ok = "\<lparr>Pools = [\<lparr>Filter = Some ''path=/v2'', MemoryCache = None\<rparr>,
                       \<lparr>Filter = None, MemoryCache = Some ''cache''\<rparr>],
              MirrorPool = None :: (string, string) ServerPoolSpec option\<rparr>"
  let ?nomain = "\<lparr>Pools = [\<lparr>Filter = Some ''path=/v2'', MemoryCache = None :: string option\<rparr>],
                  MirrorPool = None\<rparr>"
  let ?mirror = "\<lparr>Pools = [\<lparr>Filter = None :: string option, MemoryCache = None\<rparr>],
                  MirrorPool = Some \<lparr>Filter = Some ''path=/v2'', MemoryCache = Some ''cache''\<rparr>\<rparr>"
  have a: "proxy_Validate (\<lambda>pool. None) ?ok = None"
    by (simp add: proxy_Validate_def)
  have b: "filterless_pools ?nomain \<noteq> 1"
    by (simp add: filterless_pools_def)
  have c: "MirrorPool ?mirror = Some \<lparr>Filter = Some ''path=/v2'', MemoryCache = Some ''cache''\<rparr>"
    by simp
  from a proxy_Validate_main_and_mirror [where pv = "\<lambda>pool. None" and s = ?ok]
  have "filterless_pools ?ok = 1" by blast
  moreover from b proxy_Validate_main_and_mirror [where pv = "\<lambda>pool. None" and s = ?nomain]
  have "proxy_Validate (\<lambda>pool. None) ?nomain \<noteq> None" by blast
  moreover from c proxy_Validate_main_and_mirror [where pv = "\<lambda>pool. None" and s = ?mirror]
  have "proxy_Validate (\<lambda>pool. None) ?mirror \<noteq> None" by simp
  ultimately show ?thesis using a b by blast
qed

subsection \<open>Handle\<close>

lemma choose_pool_find:
  "choose_pool Match req sp cands
   = (case find (\<lambda>v. Match v req) cands of None \<Rightarrow> sp | Some v \<Rightarrow> Some v)"
  by (induction cands) simp_all

lemma find_first_index:
  assumes "i < length xs" and "P (xs ! i)" and "\<forall>j < i. \<not> P (xs ! j)"
  shows "find P xs = Some (xs ! i)"
  using assms
proof (induction xs arbitrary: i)
  case Nil
  then show ?case by simp
next
  case (Cons x xs)
  show ?case
  proof (cases i)
    case 0
    with Cons.prems show ?thesis by simp
  next
    case (Suc k)
    with Cons.prems have "\<not> P x" by auto
    moreover from Suc Cons.prems have "k < length xs" "P (xs ! k)" "\<forall>j < k. \<not> P (xs ! j)"
      by auto
    ultimately show ?thesis using Cons.IH [of k] Suc by simp
  qed
qed

text \<open>
  Claim C4. \<open>Handle\<close> (of a proxy that has its main pool) calls exactly one pool itself:
  the first candidate, in the order of \<open>candidatePools\<close>, whose filter matches the request,
  and the main pool when no candidate matches; the string it returns is the result of
  that pool's \<open>handle(ctx, false)\<close>. A goroutine for the mirror pool is started exactly
  when a mirror pool is configured and its filter matches; its result is not part of what
  \<open>Handle\<close> returns.
\<close>

theorem proxy_Handle_dispatch:
  assumes "mainPool p = Some main"
  shows "\<exists>h. proxy_Handle Match handle Request p ctx = Some h
     \<and> result h = handle (chosen h) ctx False
     \<and> (\<forall>i < length (candidatePools p).
           Match (candidatePools p ! i) (Request ctx)
           \<and> (\<forall>j < i. \<not> Match (candidatePools p ! j) (Request ctx))
           \<longrightarrow> chosen h = candidatePools p ! i)
     \<and> ((\<forall>v \<in> set (candidatePools p). \<not> Match v (Request ctx)) \<longrightarrow> chosen h = main)
     \<and> spawned h = (case mirrorPool p of
                      None \<Rightarrow> []
                    | Some m \<Rightarrow> if Match m (Request ctx) then [m] else [])"
proof (cases "find (\<lambda>v. Match v (Request ctx)) (candidatePools p)")
  case None
  then have no: "\<forall>v \<in> set (candidatePools p). \<not> Match v (Request ctx)"
    by (simp add: find_None_iff)
  then have "\<forall>i < length (candidatePools p). \<not> Match (candidatePools p ! i) (Request ctx)"
    by simp
  with None assms show ?thesis
    by (simp add: proxy_Handle_def choose_pool_find Let_def)
next
  case (Some v)
  have first: "chosen_i = v"
    if "i < length (candidatePools p)" "Match (candidatePools p ! i) (Request ctx)"
      "\<forall>j < i. \<not> Match (candidatePools p ! j) (Request ctx)" "chosen_i = candidatePools p ! i"
    for i chosen_i
    using find_first_index [of i "candidatePools p" "\<lambda>v. Match v (Request ctx)"] that Some
    by simp
  have "\<not> (\<forall>v \<in> set (candidatePools p). \<not> Match v (Request ctx))"
    using Some by (simp add: find_Some_iff) (metis nth_mem)
  with Some first show ?thesis
    by (auto simp: proxy_Handle_def choose_pool_find Let_def)
qed

theorem proxy_Handle_dispatch_witness:
  "mainPool demo_proxy = Some ''main''
   \<and> proxy_Handle demo_Match demo_handle id demo_proxy ''/v1/users''
       = Some \<lparr>spawned = [''/v1''], chosen = ''/v'', result = ''/v''\<rparr>
   \<and> proxy_Handle demo_Match demo_handle id demo_proxy ''/health''
       = Some \<lparr>spawned = [], chosen = ''main'', result = ''main''\<rparr>"
proof -
  have m: "mainPool demo_proxy = Some ''main''"
    by (simp add: demo_proxy_def)
  have c: "candidatePools demo_proxy = [''/v2'', ''/v'', ''/v1'']"
    "mirrorPool demo_proxy = Some ''/v1''"
    by (simp_all add: demo_proxy_def)
  have first: "(1::nat) < length (candidatePools demo_proxy)
      \<and> demo_Match (candidatePools demo_proxy ! 1) (id ''/v1/users'')
      \<and> (\<forall>j < (1::nat). \<not> demo_Match (candidatePools demo_proxy ! j) (id ''/v1/users''))"
    by (simp add: c demo_Match_def)
  have none: "\<forall>v \<in> set (candidatePools demo_proxy). \<not> demo_Match v (id ''/health'')"
    by (simp add: c demo_Match_def)
  from proxy_Handle_dispatch [OF m, of demo_Match demo_handle id "''/v1/users''"] first
  obtain h where h: "proxy_Handle demo_Match demo_handle id demo_proxy ''/v1/users'' = Some h"
    "result h = demo_handle (chosen h) ''/v1/users'' False"
    "chosen h = candidatePools demo_proxy ! 1"
    "spawned h = [''/v1'']"
    by (auto simp: c demo_Match_def)
  from proxy_Handle_dispatch [OF m, of demo_Match demo_handle id "''/health''"] none
  obtain g where g: "proxy_Handle demo_Match demo_handle id demo_proxy ''/health'' = Some g"
    "result g = demo_handle (chosen g) ''/health'' False"
    "chosen g = ''main''"
    "spawned g = []"
    by (auto simp: c demo_Match_def)
  have "h = \<lparr>spawned = [''/v1''], chosen = ''/v'', result = ''/v''\<rparr>"
    using h(2-4) by (simp add: c demo_handle_def)
  moreover have "g = \<lparr>spawned = [], chosen = ''main'', result = ''main''\<rparr>"
    using g(2-4) by (simp add: demo_handle_def)
  ultimately show ?thesis using m h(1) g(1) by simp
qed

text \<open>\<open>reload\<close> keeps the declared order: the candidates are the pools with a filter, in
  the order of \<open>Pools\<close>.\<close>

lemma reload_pools_candidates:
  "length (candidatePools (reload_pools N p specs))
   = length (candidatePools p) + length (filter (\<lambda>spec. Filter spec \<noteq> None) specs)"
  by (induction specs arbitrary: p) simp_all

lemma reload_pools_main:
  "\<exists>spec \<in> set specs. Filter spec = None \<Longrightarrow> mainPool (reload_pools N p specs) \<noteq> None"
proof (induction specs arbitrary: p)
  case Nil
  then show ?case by simp
next
  case (Cons spec specs)
  have keeps: "mainPool q \<noteq> None \<Longrightarrow> mainPool (reload_pools N q specs') \<noteq> None" for q specs'
    by (induction specs' arbitrary: q) simp_all
  show ?case
  proof (cases "Filter spec = None")
    case True
    then show ?thesis using keeps [of "p\<lparr>mainPool := Some (N spec MainRole)\<rparr>" specs] by simp
  next
    case False
    with Cons.prems have "\<exists>spec \<in> set specs. Filter spec = None" by auto
    with False Cons.IH show ?thesis by simp
  qed
qed

section \<open>Properties of the HTTPServer runtime\<close>

subsection \<open>Reload and restart\<close>

lemma needRestartServer_fields:
  "needRestartServer x y \<longleftrightarrow> differs_outside_hot_options x y"
  by (cases x, cases y)
    (auto simp: needRestartServer_def clear_hot_options_def differs_outside_hot_options_def)

lemma startServer_actions:
  assumes "spec r = Some sp"
  shows "\<exists>r' acts. startServer listenErr r = Some (r', StartServer # acts)
     \<and> CloseServer \<notin> set acts \<and> StartServer \<notin> set acts"
  using assms by (simp add: startServer_def Let_def split: option.splits)

lemma closeServer_actions:
  "\<exists>acts. closeServer r = CloseServer # acts \<and> CloseServer \<notin> set acts
     \<and> StartServer \<notin> set acts"
  by (simp add: closeServer_def)

lemma restarts_close_then_start:
  assumes "CloseServer \<notin> set xs" "StartServer \<notin> set xs"
    and "CloseServer \<notin> set ys" "StartServer \<notin> set ys"
  shows "restarts (MuxReload n # (CloseServer # xs) @ StartServer # ys)"
proof -
  have "filter (\<lambda>a. a = CloseServer \<or> a = StartServer) zs = []"
    if "CloseServer \<notin> set zs" "StartServer \<notin> set zs" for zs :: "('a, 'b, 'c, 'd) action list"
    using that by (induction zs) auto
  with assms show ?thesis
    by (simp add: restarts_def)
qed

lemma reload_restart:
  assumes "spec r = Some current" and "ObjectSpec nextSuperSpec = Some nextSpec"
    and "needRestartServer current nextSpec"
  shows "\<exists>r' acts. reload listenErr nextSuperSpec r = Some (r', acts) \<and> restarts acts"
proof -
  let ?r2 = "(case limitListener r of
                None \<Rightarrow> r\<lparr>rt_superSpec := nextSuperSpec\<rparr>
              | Some l \<Rightarrow> r\<lparr>rt_superSpec := nextSuperSpec,
                            limitListener := Some (MaxConnections nextSpec)\<rparr>)"
  have sp: "spec ?r2 = Some current"
    using assms(1) by (simp split: option.splits)
  obtain xs where xs: "closeServer (?r2\<lparr>spec := Some nextSpec\<rparr>) = CloseServer # xs"
    "CloseServer \<notin> set xs" "StartServer \<notin> set xs"
    using closeServer_actions by blast
  obtain r' ys where ys:
    "startServer listenErr (?r2\<lparr>spec := Some nextSpec\<rparr>) = Some (r', StartServer # ys)"
    "CloseServer \<notin> set ys" "StartServer \<notin> set ys"
    using startServer_actions [of "?r2\<lparr>spec := Some nextSpec\<rparr>" nextSpec listenErr] by auto
  have "reload listenErr nextSuperSpec r
        = Some (r', MuxReload nextSuperSpec # (CloseServer # xs) @ StartServer # ys)"
    using assms sp xs(1) ys(1)
    by (simp add: reload_def Let_def split: option.splits)
  then show ?thesis
    using restarts_close_then_start [OF xs(2,3) ys(2,3)] by simp
qed

lemma reload_in_place:
  assumes "spec r = Some current" and "ObjectSpec nextSuperSpec = Some nextSpec"
    and "\<not> needRestartServer current nextSpec"
  shows "reload listenErr nextSuperSpec r
         = Some (r\<lparr>rt_superSpec := nextSuperSpec, spec := Some nextSpec,
                   limitListener := map_option (\<lambda>l. MaxConnections nextSpec) (limitListener r)\<rparr>,
                 [MuxReload nextSuperSpec])"
  using assms by (simp add: reload_def Let_def split: option.splits)

text \<open>
  Claim C6. For a runtime that has a current spec, \<open>reload\<close> with a next spec enters
  \<open>closeServer\<close> and then \<open>startServer\<close> if and only if the next spec differs from the
  current one in some field other than \<open>Rules\<close>, \<open>MaxConnections\<close>, \<open>CacheSize\<close>,
  \<open>XForwardedFor\<close>, \<open>Tracing\<close> and \<open>IPFilter\<close>; otherwise it enters neither, its only
  action is the reload of the mux rules, and the runtime changes only in its spec (and
  the connection limit that the spec gives to an existing limit listener). In particular
  a reload with the identical spec leaves server, start number, state and error as they
  were.
\<close>

theorem reload_restarts_iff_cold_field_differs:
  assumes "spec r = Some current" and "ObjectSpec nextSuperSpec = Some nextSpec"
  shows "\<exists>r' acts. reload listenErr nextSuperSpec r = Some (r', acts)
     \<and> (restarts acts \<longleftrightarrow> differs_outside_hot_options current nextSpec)
     \<and> (\<not> differs_outside_hot_options current nextSpec \<longrightarrow>
          leaves_listener acts \<and> acts = [MuxReload nextSuperSpec]
          \<and> r' = r\<lparr>rt_superSpec := nextSuperSpec, spec := Some nextSpec,
                    limitListener := map_option (\<lambda>l. MaxConnections nextSpec)
                                       (limitListener r)\<rparr>)
     \<and> (nextSpec = current \<longrightarrow>
          leaves_listener acts \<and> server r' = server r \<and> server3 r' = server3 r
          \<and> startNum r' = startNum r \<and> state r' = state r \<and> err r' = err r
          \<and> spec r' = Some current)"
proof (cases "needRestartServer current nextSpec")
  case True
  then have d: "differs_outside_hot_options current nextSpec"
    by (simp add: needRestartServer_fields)
  then have "nextSpec \<noteq> current"
    by (auto simp: differs_outside_hot_options_def)
  with d reload_restart [OF assms True, of listenErr] show ?thesis
    by auto
next
  case False
  then have d: "\<not> differs_outside_hot_options current nextSpec"
    by (simp add: needRestartServer_fields)
  have "\<not> restarts [MuxReload nextSuperSpec]" "leaves_listener [MuxReload nextSuperSpec]"
    by (simp_all add: restarts_def leaves_listener_def)
  with d reload_in_place [OF assms False, of listenErr] show ?thesis
    by simp
qed

theorem reload_restarts_iff_cold_field_differs_witness:
  "spec demo_runtime = Some demo_spec
   \<and> (\<exists>r' acts. reload None \<lparr>Name = ''demo'', ObjectSpec = Some (demo_spec\<lparr>Port := 10081\<rparr>)\<rparr>
                    demo_runtime = Some (r', acts) \<and> restarts acts)
   \<and> (\<exists>r'. reload None
               \<lparr>Name = ''demo'',
                ObjectSpec = Some (demo_spec\<lparr>MaxConnections := 20, Rules := [''/pipeline'']\<rparr>)\<rparr>
               demo_runtime
             = Some (r', [MuxReload \<lparr>Name = ''demo'',
                            ObjectSpec = Some (demo_spec\<lparr>MaxConnections := 20,
                                                         Rules := [''/pipeline'']\<rparr>)\<rparr>])
             \<and> startNum r' = 1 \<and> limitListener r' = Some 20)
   \<and> (\<exists>r'. reload None \<lparr>Name = ''demo'', ObjectSpec = Some demo_spec\<rparr> demo_runtime
             = Some (r', [MuxReload \<lparr>Name = ''demo'', ObjectSpec = Some demo_spec\<rparr>])
             \<and> state r' = stateRunning \<and> startNum r' = 1)"
proof -
  have cur: "spec demo_runtime = Some demo_spec"
    by (simp add: demo_runtime_def)
  have vals: "startNum demo_runtime = 1" "state demo_runtime = stateRunning"
    "limitListener demo_runtime = Some 10240"
    by (simp_all add: demo_runtime_def)
  have d1: "differs_outside_hot_options demo_spec (demo_spec\<lparr>Port := 10081\<rparr>)"
    by (simp add: differs_outside_hot_options_def demo_spec_def)
  have d2: "\<not> differs_outside_hot_options demo_spec
               (demo_spec\<lparr>MaxConnections := 20, Rules := [''/pipeline'']\<rparr>)"
    by (simp add: differs_outside_hot_options_def)
  have d3: "\<not> differs_outside_hot_options demo_spec demo_spec"
    by (simp add: differs_outside_hot_options_def)
  have a: "\<exists>r' acts. reload None \<lparr>Name = ''demo'', ObjectSpec = Some (demo_spec\<lparr>Port := 10081\<rparr>)\<rparr>
                    demo_runtime = Some (r', acts) \<and> restarts acts"
    using reload_restarts_iff_cold_field_differs [OF cur, of
        "\<lparr>Name = ''demo'', ObjectSpec = Some (demo_spec\<lparr>Port := 10081\<rparr>)\<rparr>"
        "demo_spec\<lparr>Port := 10081\<rparr>" None] d1
    by auto
  have b: "\<exists>r'. reload None
               \<lparr>Name = ''demo'',
                ObjectSpec = Some (demo_spec\<lparr>MaxConnections := 20, Rules := [''/pipeline'']\<rparr>)\<rparr>
               demo_runtime
             = Some (r', [MuxReload \<lparr>Name = ''demo'',
                            ObjectSpec = Some (demo_spec\<lparr>MaxConnections := 20,
                                                         Rules := [''/pipeline'']\<rparr>)\<rparr>])
             \<and> startNum r' = 1 \<and> limitListener r' = Some 20"
    using reload_restarts_iff_cold_field_differs [OF cur, of
        "\<lparr>Name = ''demo'',
          ObjectSpec = Some (demo_spec\<lparr>MaxConnections := 20, Rules := [''/pipeline'']\<rparr>)\<rparr>"
        "demo_spec\<lparr>MaxConnections := 20, Rules := [''/pipeline'']\<rparr>" None] d2
    by (auto simp: vals)
  have c: "\<exists>r'. reload None \<lparr>Name = ''demo'', ObjectSpec = Some demo_spec\<rparr> demo_runtime
             = Some (r', [MuxReload \<lparr>Name = ''demo'', ObjectSpec = Some demo_spec\<rparr>])
             \<and> state r' = stateRunning \<and> startNum r' = 1"
    using reload_restarts_iff_cold_field_differs [OF cur, of
        "\<lparr>Name = ''demo'', ObjectSpec = Some demo_spec\<rparr>" demo_spec None] d3
    by (auto simp: vals)
  from cur a b c show ?thesis by blast
qed

subsection \<open>Start numbers and stale serveFailed events\<close>

lemma startServer_startNum:
  "startServer listenErr r = Some (r', acts) \<Longrightarrow> startNum r' = startNum r + 1"
  by (auto simp: startServer_def Let_def setError_def errNil_def split: option.splits if_splits)

lemma stale_serveFailed_ignored:
  "ev_startNum e < startNum r \<Longrightarrow> handleEventServeFailed e r = r"
  by (simp add: handleEventServeFailed_def)

lemma fresh_serveFailed_fails:
  "\<not> ev_startNum e < startNum r \<Longrightarrow>
   state (handleEventServeFailed e r) = stateFailed
   \<and> err (handleEventServeFailed e r) = (case ev_err e of None \<Rightarrow> errNil | Some msg \<Rightarrow> msg)"
  by (simp add: handleEventServeFailed_def setError_def split: option.splits)

text \<open>
  Claim C7. Every call of \<open>startServer\<close> that returns leaves \<open>startNum\<close> one higher
  (\<open>r.startNum++\<close> on a uint64), and it returns whenever the runtime has a spec. A
  \<open>serveFailed\<close> event whose \<open>startNum\<close> is strictly lower than the runtime's leaves the
  runtime as it is, state and error included; an event whose \<open>startNum\<close> is not lower
  sets the state to failed and stores the event's error.
\<close>

theorem startNum_and_serveFailed:
  "(\<forall>sp. spec r = Some sp \<longrightarrow>
      (\<exists>r' acts. startServer listenErr r = Some (r', acts) \<and> startNum r' = startNum r + 1))
   \<and> (ev_startNum e < startNum r \<longrightarrow>
        handleEventServeFailed e r = r)
   \<and> (\<not> ev_startNum e < startNum r \<longrightarrow>
        state (handleEventServeFailed e r) = stateFailed
        \<and> err (handleEventServeFailed e r)
            = (case ev_err e of None \<Rightarrow> errNil | Some msg \<Rightarrow> msg))"
proof -
  have "\<exists>r' acts. startServer listenErr r = Some (r', acts) \<and> startNum r' = startNum r + 1"
    if "spec r = Some sp" for sp
  proof -
    from startServer_actions [OF that, of listenErr]
    obtain r' acts where "startServer listenErr r = Some (r', StartServer # acts)" by blast
    then show ?thesis using startServer_startNum by blast
  qed
  then show ?thesis
    using stale_serveFailed_ignored [of e r] fresh_serveFailed_fails [of e r] by blast
qed

theorem startNum_and_serveFailed_witness:
  "spec demo_runtime = Some demo_spec
   \<and> (\<exists>r' acts. startServer None demo_runtime = Some (r', acts) \<and> startNum r' = 2)
   \<and> (0::64 word) < startNum demo_runtime
   \<and> handleEventServeFailed \<lparr>ev_startNum = 0, ev_err = Some ''address in use''\<rparr> demo_runtime
       = demo_runtime
   \<and> \<not> (1::64 word) < startNum demo_runtime
   \<and> state (handleEventServeFailed \<lparr>ev_startNum = 1, ev_err = Some ''address in use''\<rparr>
              demo_runtime) = stateFailed
   \<and> err (handleEventServeFailed \<lparr>ev_startNum = 1, ev_err = Some ''address in use''\<rparr>
            demo_runtime) = ''address in use''"
proof -
  have cur: "spec demo_runtime = Some demo_spec"
    and n: "startNum demo_runtime = 1"
    by (simp_all add: demo_runtime_def)
  have lo: "ev_startNum \<lparr>ev_startNum = 0, ev_err = Some ''address in use''\<rparr>
              < startNum demo_runtime"
    and hi: "\<not> ev_startNum \<lparr>ev_startNum = 1, ev_err = Some ''address in use''\<rparr>
              < startNum demo_runtime"
    by (simp_all add: n)
  from startNum_and_serveFailed
    [of demo_runtime None "\<lparr>ev_startNum = 0, ev_err = Some ''address in use''\<rparr>"] cur lo
  have a: "\<exists>r' acts. startServer None demo_runtime = Some (r', acts) \<and> startNum r' = 2"
    and b: "handleEventServeFailed \<lparr>ev_startNum = 0, ev_err = Some ''address in use''\<rparr>
              demo_runtime = demo_runtime"
    by (auto simp: n)
  from startNum_and_serveFailed
    [of demo_runtime None "\<lparr>ev_startNum = 1, ev_err = Some ''address in use''\<rparr>"] hi
  have c: "state (handleEventServeFailed \<lparr>ev_startNum = 1, ev_err = Some ''address in use''\<rparr>
              demo_runtime) = stateFailed
     \<and> err (handleEventServeFailed \<lparr>ev_startNum = 1, ev_err = Some ''address in use''\<rparr>
            demo_runtime) = ''address in use''"
    by simp
  from cur a b c lo hi show ?thesis by (simp add: n)
qed

section \<open>Properties of the UDP proxy session\<close>

lemma Write_room:
  "length (writeBuf s) < writeBuf_cap \<Longrightarrow>
   Write outcome s buf = (s\<lparr>writeBuf := writeBuf s @ [buf]\<rparr>,
                          \<lparr>error = None, released = False, timer = None\<rparr>)"
  by (simp add: Write_def)

lemma Write_keeps_cap:
  "length (writeBuf s) \<le> writeBuf_cap \<Longrightarrow>
   length (writeBuf (fst (Write outcome s buf))) \<le> writeBuf_cap"
  by (auto simp: Write_def writeBuf_cap_def split: wait_outcome.splits)

text \<open>
  Claim C8 at a concrete session. With \<open>upstreamIdleTimeout\<close> configured as 1000 ms and
  \<open>downstreamIdleTimeout\<close> as 5000 ms, the session made by \<open>getSession\<close> carries the
  downstream value as its \<open>upstreamIdleTimeout\<close>, and a \<open>Write\<close> on its full channel
  arms a timer of that duration times \<open>time.Millisecond\<close> once more: 5 * 10^15 ns, about
  58 days, which is neither the configured second (10^9 ns) nor the duration that the
  session holds. When that timer fires, \<open>Write\<close> returns the write-timeout error and
  releases the packet.
\<close>

theorem Write_timer_of_full_session:
  "upstreamIdleTimeout full_session_1s_5s = 5000 * Millisecond
   \<and> Write_timer full_session_1s_5s = 5000000000000000
   \<and> Write_timer full_session_1s_5s \<noteq> 1000 * Millisecond
   \<and> Write_timer full_session_1s_5s \<noteq> upstreamIdleTimeout full_session_1s_5s
   \<and> Write TimerFires full_session_1s_5s [0x61]
       = (full_session_1s_5s,
          \<lparr>error = Some ''write data to channel timeout'', released = True,
           timer = Some 5000000000000000\<rparr>)"
  by (simp add: full_session_1s_5s_def getSession_new_def newSession_def spec_1s_5s_def
      Write_def Write_timer_def writeBuf_cap_def Millisecond_def)

section \<open>Properties of HTTPStat\<close>

subsection \<open>Where the aggregates wrap\<close>

lemma recorded_minus_1ms: "recorded minus_1ms = 18446744073709551615"
  by (simp add: recorded_def minus_1ms_def Milliseconds_def)

lemma Stat_first_minus_1ms:
  "Stat minus_1ms New =
     Some \<lparr>count = 1, errCount = 0, total_ms = 18446744073709551615,
      min_ms = 18446744073709551615, mean = 18446744073709551615,
      max_ms = 18446744073709551615, reqSize = 0, respSize = 0\<rparr>"
  unfolding Stat_def Let_def recorded_minus_1ms
  by (simp add: New_def isErr_def minus_1ms_def)

lemma Stat_second_minus_1ms:
  "Stat minus_1ms \<lparr>count = 1, errCount = 0, total_ms = 18446744073709551615,
      min_ms = 18446744073709551615, mean = 18446744073709551615,
      max_ms = 18446744073709551615, reqSize = 0, respSize = 0\<rparr> = Some after_two_minus_1ms"
  unfolding Stat_def Let_def recorded_minus_1ms
  by (simp add: isErr_def minus_1ms_def after_two_minus_1ms_def)

lemma Stat_all_two_minus_1ms: "Stat_all New [minus_1ms, minus_1ms] = Some after_two_minus_1ms"
  by (simp add: Stat_first_minus_1ms Stat_second_minus_1ms)

text \<open>
  Claim C10, as stated, fails where the uint64 arithmetic wraps. Two calls with a duration
  of minus one millisecond record 2^64 - 1 twice: the total wraps to 2^64 - 2 and is not
  the sum of the recorded durations, the mean is 2^63 - 1, and the minimum 2^64 - 1 is
  above the mean.
\<close>

theorem mean_below_min_after_wrap:
  "Stat_all New [minus_1ms, minus_1ms] = Some after_two_minus_1ms
   \<and> \<not> min_ms after_two_minus_1ms \<le> mean after_two_minus_1ms
   \<and> unat (total_ms after_two_minus_1ms) \<noteq> sum_list (durations [minus_1ms, minus_1ms])"
proof -
  have "\<not> min_ms after_two_minus_1ms \<le> mean after_two_minus_1ms"
    by (simp add: after_two_minus_1ms_def)
  moreover have "unat (total_ms after_two_minus_1ms) \<noteq> sum_list (durations [minus_1ms, minus_1ms])"
    by (simp add: after_two_minus_1ms_def durations_def recorded_minus_1ms)
  ultimately show ?thesis
    using Stat_all_two_minus_1ms by simp
qed

subsection \<open>The aggregates while nothing wraps\<close>

lemma Stat_all_append:
  "Stat_all hs (xs @ ys) = (case Stat_all hs xs of None \<Rightarrow> None | Some h \<Rightarrow> Stat_all h ys)"
  by (induction xs arbitrary: hs) (simp_all split: option.splits)

lemma durations_snoc: "durations (ms @ [m]) = durations ms @ [unat (recorded m)]"
  by (simp add: durations_def)

lemma aggregates_of_New: "aggregates_of New []"
  by (simp add: aggregates_of_def New_def durations_def)

lemma Stat_fields:
  assumes "count hs + 1 \<noteq> 0"
  shows "\<exists>hs'. Stat m hs = Some hs'
     \<and> count hs' = count hs + 1
     \<and> total_ms hs' = total_ms hs + recorded m
     \<and> (if count hs + 1 = 1
         then min_ms hs' = recorded m \<and> max_ms hs' = recorded m \<and> mean hs' = recorded m
         else min_ms hs' = (if recorded m < min_ms hs then recorded m else min_ms hs)
              \<and> max_ms hs' = (if recorded m > max_ms hs then recorded m else max_ms hs)
              \<and> mean hs' = (total_ms hs + recorded m) div (count hs + 1))"
  using assms by (simp add: Stat_def Let_def)

lemma Stat_keeps_aggregates:
  assumes inv: "aggregates_of hs ms"
    and len: "length ms + 1 < 2 ^ 64"
    and sum: "sum_list (durations ms) + unat (recorded m) < 2 ^ 64"
  shows "\<exists>hs'. Stat m hs = Some hs' \<and> aggregates_of hs' (ms @ [m])"
proof -
  let ?d = "recorded m"
  have c: "unat (count hs) = length ms" and t: "unat (total_ms hs) = sum_list (durations ms)"
    using inv by (simp_all add: aggregates_of_def)
  have c1: "unat (count hs + 1) = length ms + 1"
    using c len by (simp add: unat_add_lem [THEN iffD1])
  have t1: "unat (total_ms hs + ?d) = sum_list (durations ms) + unat ?d"
    using t sum by (simp add: unat_add_lem [THEN iffD1])
  have nz: "count hs + 1 \<noteq> 0"
    using c1 by (metis Suc_eq_plus1 nat.distinct(1) unat_0)
  from Stat_fields [OF nz, of m] obtain hs' where hs': "Stat m hs = Some hs'"
    "count hs' = count hs + 1" "total_ms hs' = total_ms hs + ?d"
    "if count hs + 1 = 1
     then min_ms hs' = ?d \<and> max_ms hs' = ?d \<and> mean hs' = ?d
     else min_ms hs' = (if ?d < min_ms hs then ?d else min_ms hs)
          \<and> max_ms hs' = (if ?d > max_ms hs then ?d else max_ms hs)
          \<and> mean hs' = (total_ms hs + ?d) div (count hs + 1)"
    by blast
  have one: "count hs + 1 = 1 \<longleftrightarrow> ms = []"
    using c by (metis add_cancel_left_left length_0_conv unat_eq_0)
  have "aggregates_of hs' (ms @ [m])"
  proof (cases "ms = []")
    case True
    with hs' one c t show ?thesis
      by (simp add: aggregates_of_def durations_def unat_eq_0)
  next
    case False
    with inv have mn: "unat (min_ms hs) = Min (set (durations ms))"
      and mx: "unat (max_ms hs) = Max (set (durations ms))"
      by (simp_all add: aggregates_of_def)
    have ne: "set (durations ms) \<noteq> {}"
      using False by (simp add: durations_def)
    have "unat (min_ms hs') = min (unat ?d) (Min (set (durations ms)))"
      using hs'(4) one False mn by (auto simp: word_less_nat_alt min_def)
    moreover have "unat (max_ms hs') = max (unat ?d) (Max (set (durations ms)))"
      using hs'(4) one False mx by (auto simp: word_less_nat_alt max_def)
    moreover have "mean hs' = total_ms hs' div count hs'"
      using hs' one False by simp
    ultimately show ?thesis
      using hs'(2,3) c1 t1 ne
      by (simp add: aggregates_of_def durations_snoc Min_insert Max_insert)
  qed
  with hs'(1) show ?thesis by blast
qed

lemma sum_list_prefix_le: "sum_list (durations ms) \<le> sum_list (durations (ms @ [m]))"
  by (simp add: durations_snoc)

lemma Stat_all_aggregates:
  "length ms < 2 ^ 64 \<Longrightarrow> sum_list (durations ms) < 2 ^ 64 \<Longrightarrow>
   \<exists>hs. Stat_all New ms = Some hs \<and> aggregates_of hs ms"
proof (induction ms rule: rev_induct)
  case Nil
  then show ?case by (simp add: aggregates_of_New)
next
  case (snoc m ms)
  from snoc.prems have "length ms < 2 ^ 64" "sum_list (durations ms) < 2 ^ 64"
    by (simp_all add: durations_snoc)
  with snoc.IH obtain hs where hs: "Stat_all New ms = Some hs" "aggregates_of hs ms"
    by blast
  from snoc.prems have "length ms + 1 < 2 ^ 64"
    "sum_list (durations ms) + unat (recorded m) < 2 ^ 64"
    by (simp_all add: durations_snoc)
  from Stat_keeps_aggregates [OF hs(2) this] obtain hs' where
    "Stat m hs = Some hs'" "aggregates_of hs' (ms @ [m])"
    by blast
  with hs(1) show ?case
    by (simp add: Stat_all_append)
qed

lemma sum_list_between:
  "\<forall>x \<in> set xs. a \<le> x \<and> x \<le> b \<Longrightarrow>
   a * length xs \<le> sum_list xs \<and> sum_list xs \<le> b * length (xs :: nat list)"
proof (induction xs)
  case Nil
  then show ?case by simp
next
  case (Cons x xs)
  then have "a * length xs \<le> sum_list xs" "sum_list xs \<le> b * length xs" "a \<le> x" "x \<le> b"
    by simp_all
  then show ?case by simp
qed

lemma mean_between:
  assumes "xs \<noteq> []"
  shows "Min (set xs) \<le> sum_list xs div length xs \<and> sum_list xs div length xs \<le> Max (set xs)"
proof -
  have "\<forall>x \<in> set xs. Min (set xs) \<le> x \<and> x \<le> Max (set xs)"
    by simp
  then have b: "Min (set xs) * length xs \<le> sum_list xs"
    "sum_list xs \<le> Max (set xs) * length xs"
    using sum_list_between by blast+
  have n: "0 < length xs" using assms by simp
  from b(1) n have "Min (set xs) \<le> sum_list xs div length xs"
    by (simp add: less_eq_div_iff_mult_less_eq)
  moreover from b(2) n have "sum_list xs div length xs \<le> Max (set xs)"
    by (metis div_le_mono nonzero_mult_div_cancel_right less_numeral_extra(3))
  ultimately show ?thesis by simp
qed

text \<open>
  Claim C10, amended. For every HTTPStat, after any non-empty sequence of \<open>Stat(m)\<close> calls
  of fewer than 2^64 calls whose recorded millisecond durations sum to less than 2^64 (so
  that neither uint64 wraps): the total is the sum of the recorded durations, the mean is
  the total divided by the count (integer division), the minimum and the maximum are those
  of the recorded durations, and min \<le> mean \<le> max.
\<close>

theorem latency_aggregates_without_wrap:
  assumes "ms \<noteq> []" and "length ms < 2 ^ 64" and "sum_list (durations ms) < 2 ^ 64"
  shows "\<exists>hs. Stat_all New ms = Some hs
     \<and> unat (count hs) = length ms
     \<and> unat (total_ms hs) = sum_list (durations ms)
     \<and> mean hs = total_ms hs div count hs
     \<and> unat (min_ms hs) = Min (set (durations ms))
     \<and> unat (max_ms hs) = Max (set (durations ms))
     \<and> min_ms hs \<le> mean hs \<and> mean hs \<le> max_ms hs"
proof -
  from Stat_all_aggregates [OF assms(2,3)] obtain hs where
    hs: "Stat_all New ms = Some hs" "aggregates_of hs ms"
    by blast
  from hs(2) assms(1) have f: "unat (count hs) = length ms"
    "unat (total_ms hs) = sum_list (durations ms)"
    "unat (min_ms hs) = Min (set (durations ms))"
    "unat (max_ms hs) = Max (set (durations ms))"
    "mean hs = total_ms hs div count hs"
    by (simp_all add: aggregates_of_def)
  have len: "length (durations ms) = length ms" and ne: "durations ms \<noteq> []"
    using assms(1) by (simp_all add: durations_def)
  have "unat (mean hs) = sum_list (durations ms) div length (durations ms)"
    using f by (simp add: unat_div len)
  with mean_between [OF ne] f(3,4)
  have "min_ms hs \<le> mean hs \<and> mean hs \<le> max_ms hs"
    by (simp add: word_le_nat_alt)
  with hs(1) f show ?thesis by blast
qed

lemma durations_three_requests: "durations three_requests = [10, 30, 20]"
  by (simp add: durations_def three_requests_def recorded_def Milliseconds_def)

theorem latency_aggregates_without_wrap_witness:
  "three_requests \<noteq> [] \<and> length three_requests < 2 ^ 64
   \<and> sum_list (durations three_requests) < 2 ^ 64
   \<and> (\<exists>hs. Stat_all New three_requests = Some hs
        \<and> unat (count hs) = 3 \<and> unat (total_ms hs) = 60 \<and> mean hs = total_ms hs div count hs
        \<and> unat (min_ms hs) = 10 \<and> unat (max_ms hs) = 30
        \<and> min_ms hs \<le> mean hs \<and> mean hs \<le> max_ms hs)"
proof -
  have a: "three_requests \<noteq> []" and b: "length three_requests < 2 ^ 64"
    by (simp_all add: three_requests_def)
  have c: "sum_list (durations three_requests) < 2 ^ 64"
    by (simp add: durations_three_requests)
  have l: "length three_requests = 3"
    by (simp add: three_requests_def)
  from latency_aggregates_without_wrap [OF a b c] a b c show ?thesis
    by (simp add: durations_three_requests l)
qed
subsection \<open>Wrapping without a negative duration\<close>

lemma recorded_long_request: "recorded long_request = 8796093022208"
  by (simp add: recorded_def long_request_def Milliseconds_def)

lemma Stat_all_replicate:
  "k < 2 ^ 64 \<Longrightarrow> 0 < k \<Longrightarrow>
   \<exists>hs. Stat_all New (replicate k m) = Some hs
     \<and> count hs = of_nat k \<and> total_ms hs = of_nat k * recorded m
     \<and> min_ms hs = recorded m \<and> max_ms hs = recorded m
     \<and> mean hs = (if k = 1 then recorded m else (of_nat k * recorded m) div of_nat k)"
proof (induction k)
  case 0
  then show ?case by simp
next
  case (Suc k)
  show ?case
  proof (cases "k = 0")
    case True
    have "count New + 1 \<noteq> 0" by (simp add: New_def)
    from Stat_fields [OF this, of m] True show ?thesis
      by (auto simp: New_def)
  next
    case False
    with Suc obtain hs where hs: "Stat_all New (replicate k m) = Some hs"
      "count hs = of_nat k" "total_ms hs = of_nat k * recorded m"
      "min_ms hs = recorded m" "max_ms hs = recorded m"
      by auto
    have "(of_nat (Suc k) :: 64 word) \<noteq> 0"
      using Suc.prems by (intro of_nat_neq_0) simp_all
    then have nz: "count hs + 1 \<noteq> 0"
      using hs(2) by (simp add: add.commute)
    have "unat (of_nat (Suc k) :: 64 word) = Suc k"
      using Suc.prems by (simp add: unat_of_nat del: of_nat_Suc)
    moreover have "count hs + 1 = of_nat (Suc k)"
      using hs(2) by simp
    ultimately have n1: "count hs + 1 \<noteq> 1"
      using False by (metis One_nat_def nat.inject unat_1)
    from Stat_fields [OF nz, of m] n1 obtain hs' where hs': "Stat m hs = Some hs'"
      "count hs' = count hs + 1" "total_ms hs' = total_ms hs + recorded m"
      "min_ms hs' = (if recorded m < min_ms hs then recorded m else min_ms hs)"
      "max_ms hs' = (if recorded m > max_ms hs then recorded m else max_ms hs)"
      "mean hs' = (total_ms hs + recorded m) div (count hs + 1)"
      by auto
    have "replicate (Suc k) m = replicate k m @ [m]"
      by (simp add: replicate_append_same)
    then have "Stat_all New (replicate (Suc k) m) = Some hs'"
      using hs(1) hs'(1) by (simp only: Stat_all_append) simp
    moreover have "of_nat k * recorded m + recorded m = (of_nat (Suc k) :: 64 word) * recorded m"
      by (simp add: algebra_simps)
    ultimately show ?thesis
      using hs hs' False by (simp add: algebra_simps)
  qed
qed

text \<open>
  The same failure with durations that are not negative: after 2^21 requests of 2^43 ms
  each the total has wrapped to 0, so the mean is 0, below the minimum of 2^43 ms.
\<close>

lemma mean_below_min_after_long_requests:
  "\<exists>hs. Stat_all New (replicate 2097152 long_request) = Some hs
     \<and> total_ms hs = 0 \<and> mean hs = 0 \<and> min_ms hs = 8796093022208
     \<and> \<not> min_ms hs \<le> mean hs"
proof -
  have "(2097152::nat) < 2 ^ 64" "(0::nat) < 2097152" by simp_all
  from Stat_all_replicate [OF this, of long_request]
  show ?thesis
    by (auto simp: recorded_long_request)
qed

section \<open>Properties of the HeaderToJSON filter\<close>

lemma canonical_scenario_keys:
  "CanonicalHeaderKey ''x-int'' = ''X-Int''"
  "CanonicalHeaderKey ''x-float'' = ''X-Float''"
  "CanonicalHeaderKey ''x-string'' = ''X-String''"
  "CanonicalHeaderKey ''x-bool'' = ''X-Bool''"
  "CanonicalHeaderKey ''x-null'' = ''X-Null''"
  by (simp_all add: CanonicalHeaderKey_def validHeaderFieldByte_def upper_char_def
      lower_char_def lower_letters_def upper_letters_def)

lemma canonical_canonical_keys:
  "CanonicalHeaderKey ''X-Int'' = ''X-Int''"
  "CanonicalHeaderKey ''X-Float'' = ''X-Float''"
  "CanonicalHeaderKey ''X-String'' = ''X-String''"
  "CanonicalHeaderKey ''X-Bool'' = ''X-Bool''"
  "CanonicalHeaderKey ''X-Null'' = ''X-Null''"
  by (simp_all add: CanonicalHeaderKey_def validHeaderFieldByte_def upper_char_def
      lower_char_def lower_letters_def upper_letters_def)

lemma scenario_headerMap:
  "h2j_init scenario_spec =
     [(''X-Int'', ''int-value''), (''X-Float'', ''float-value''),
      (''X-String'', ''string-value''), (''X-Bool'', ''bool-value''),
      (''X-Null'', ''null-value'')]"
  by (simp add: h2j_init_def scenario_spec_def canonical_scenario_keys)

lemma scenario_request_header:
  "req_Header scenario_request =
     [(''X-Int'', [''123'']), (''X-Float'', [''123.0'']), (''X-String'', [''string'']),
      (''X-Bool'', [''true'']), (''X-Null'', [''null''])]"
  by (simp add: scenario_request_def Header_Add_def canonical_scenario_keys)

lemma scenario_fields:
  "collect_headers (h2j_init scenario_spec) (req_Header scenario_request) =
     [(''int-value'', JString ''123''), (''float-value'', JString ''123.0''),
      (''string-value'', JString ''string''), (''bool-value'', JString ''true''),
      (''null-value'', JString ''null'')]"
  by (simp add: collect_headers_def scenario_headerMap scenario_request_header Header_Get_def
      canonical_canonical_keys)

text \<open>
  Claim C9 on the code. On the request of scenario 2, \<open>Handle\<close> returns the empty result
  and rewrites the body to the document that merges the original body with the mapped
  headers, each header value as a JSON string: in the parsed body \<open>int-value\<close> is the
  string \<open>123\<close> and not the number 123, \<open>float-value\<close> is the string \<open>123.0\<close>,
  \<open>bool-value\<close> the string \<open>true\<close> and \<open>null-value\<close> the string \<open>null\<close>; only
  \<open>topic\<close>, \<open>id\<close> and \<open>string-value\<close> have the values that the claim and the package's
  test expect.
\<close>

theorem Handle_scenario_writes_strings:
  "h2j_Handle (\<lambda>lastResult. lastResult) scenario_codec (h2j_init scenario_spec) scenario_request
     = ('''', scenario_request\<lparr>req_Body := Some written_body\<rparr>)
   \<and> Unmarshal scenario_codec written_body = Some written_document
   \<and> map (json_field written_document) (map fst expected_fields)
       = [Some (JString ''log''), Some (JString ''abc123''), Some (JString ''123''),
          Some (JString ''123.0''), Some (JString ''string''), Some (JString ''true''),
          Some (JString ''null'')]
   \<and> map (json_field written_document) (map fst expected_fields)
       \<noteq> map Some (map snd expected_fields)"
proof -
  have body: "req_Body scenario_request = Some scenario_body"
    by (simp add: scenario_request_def)
  have bodies: "scenario_body \<noteq> []" "written_body \<noteq> scenario_body"
    by (simp_all add: scenario_body_def written_body_def json_member_def dq_def)
  have dec: "decodeJSON scenario_codec scenario_body
             = Some [(''topic'', JString ''log''), (''id'', JString ''abc123'')]"
    by (simp add: decodeJSON_def scenario_codec_def scenario_document_def)
  have merged: "JObject (merge_fields
        [(''int-value'', JString ''123''), (''float-value'', JString ''123.0''),
         (''string-value'', JString ''string''), (''bool-value'', JString ''true''),
         (''null-value'', JString ''null'')]
        [(''topic'', JString ''log''), (''id'', JString ''abc123'')]) = written_document"
    by (simp add: merge_fields_def written_document_def)
  have enc: "Marshal scenario_codec written_document = Some written_body"
    by (simp add: scenario_codec_def)
  have "h2j_handle scenario_codec (h2j_init scenario_spec) scenario_request
        = ('''', scenario_request\<lparr>req_Body := Some written_body\<rparr>)"
    by (simp add: h2j_handle_def scenario_fields body bodies dec handleBodyMap_def merged enc)
  then have a: "h2j_Handle (\<lambda>lastResult. lastResult) scenario_codec (h2j_init scenario_spec)
        scenario_request = ('''', scenario_request\<lparr>req_Body := Some written_body\<rparr>)"
    by (simp add: h2j_Handle_def)
  have b: "Unmarshal scenario_codec written_body = Some written_document"
    using bodies(2) by (simp add: scenario_codec_def)
  have c: "map (json_field written_document) (map fst expected_fields)
       = [Some (JString ''log''), Some (JString ''abc123''), Some (JString ''123''),
          Some (JString ''123.0''), Some (JString ''string''), Some (JString ''true''),
          Some (JString ''null'')]"
    by (simp add: json_field_def written_document_def expected_fields_def)
  have d: "map Some (map snd expected_fields)
       = [Some (JString ''log''), Some (JString ''abc123''), Some (JNumber 123),
          Some (JNumber 123), Some (JString ''string''), Some (JBool True), Some JNull]"
    by (simp add: expected_fields_def)
  from a b c show ?thesis
    unfolding d by simp
qed

end
